theory Spec2Isabelle
  imports Complex_Main "HOL-Library.AList"
begin

section \<open>Strings\<close>

text \<open>
  JavaScript strings are modelled as HOL strings, one \<open>char\<close> per UTF-16 code unit;
  the model is exact for text made of code units below 128 (ASCII), which is what SQL
  text, table names and the fixed keywords of this program consist of. Case mapping is
  the ASCII one: \<open>toUpperCase\<close> and \<open>toLowerCase\<close> map the 26 letters and leave
  every other unit unchanged.
\<close>

definition lower_upper :: "(char \<times> char) list" where
  "lower_upper = zip ''abcdefghijklmnopqrstuvwxyz'' ''ABCDEFGHIJKLMNOPQRSTUVWXYZ''"

definition toUpperChar :: "char \<Rightarrow> char" where
  "toUpperChar c = (case map_of lower_upper c of Some u \<Rightarrow> u | None \<Rightarrow> c)"

definition toLowerChar :: "char \<Rightarrow> char" where
  "toLowerChar c = (case map_of (map prod.swap lower_upper) c of Some l \<Rightarrow> l | None \<Rightarrow> c)"

definition toUpperCase :: "string \<Rightarrow> string" where
  "toUpperCase s = map toUpperChar s"

definition toLowerCase :: "string \<Rightarrow> string" where
  "toLowerCase s = map toLowerChar s"

fun startsWith :: "string \<Rightarrow> string \<Rightarrow> bool" where
  "startsWith s [] = True"
| "startsWith [] (p # ps) = False"
| "startsWith (c # cs) (p # ps) = (c = p \<and> startsWith cs ps)"

text \<open>\<open>String.prototype.includes\<close>: the argument occurs as a contiguous substring.\<close>

fun str_includes :: "string \<Rightarrow> string \<Rightarrow> bool" where
  "str_includes [] sub = (sub = [])"
| "str_includes (c # cs) sub = (startsWith (c # cs) sub \<or> str_includes cs sub)"

text \<open>\<open>Array.prototype.join\<close> with a separator.\<close>

fun join :: "string \<Rightarrow> string list \<Rightarrow> string" where
  "join sep [] = []"
| "join sep [x] = x"
| "join sep (x # y # ys) = x @ sep @ join sep (y # ys)"

definition NL :: string where
  "NL = [CHR 0x0A]"

definition SQ :: string where
  \<comment> \<open>the single quote\<close>
  "SQ = [CHR 0x27]"

section \<open>Result and embedding cache (query-cache.ts, class QueryCache)\<close>

text \<open>
  The cache holds two JavaScript \<open>Map\<close>s keyed by the MD5 hex digest of the text.
  \<open>crypto.createHash("md5")\<close> is a library function; it enters every operation as the
  parameter \<open>hashQuery\<close>, about which nothing is assumed. \<open>Date.now()\<close> is the
  parameter \<open>now\<close> (milliseconds, an integer). A \<open>null\<close> return is \<open>None\<close>. Each
  operation returns the updated cache next to its result.
\<close>

record 'a CachedResult =
  data :: 'a
  timestamp :: int
  ttl :: int

record 'v CachedEmbedding =
  vector :: 'v
  emb_timestamp :: int

record ('a, 'v) QueryCache =
  resultCache :: "string \<rightharpoonup> 'a CachedResult"
  embeddingCache :: "string \<rightharpoonup> 'v CachedEmbedding"

definition DEFAULT_TTL :: int where
  "DEFAULT_TTL = 5 * 60 * 1000"

definition EMBEDDING_TTL :: int where
  \<comment> \<open>the literal \<open>60 * 60 * 1000\<close> of \<open>getEmbedding\<close> and \<open>clearExpired\<close>\<close>
  "EMBEDDING_TTL = 60 * 60 * 1000"

definition cacheResult ::
  "(string \<Rightarrow> string) \<Rightarrow> int \<Rightarrow> ('a, 'v) QueryCache \<Rightarrow> string \<Rightarrow> 'a \<Rightarrow> int \<Rightarrow> ('a, 'v) QueryCache" where
  "cacheResult hashQuery now c query d t =
     c\<lparr>resultCache := (resultCache c)(hashQuery query \<mapsto> \<lparr>data = d, timestamp = now, ttl = t\<rparr>)\<rparr>"

definition getResult ::
  "(string \<Rightarrow> string) \<Rightarrow> int \<Rightarrow> ('a, 'v) QueryCache \<Rightarrow> string \<Rightarrow> 'a option \<times> ('a, 'v) QueryCache" where
  "getResult hashQuery now c query =
     (case resultCache c (hashQuery query) of
        None \<Rightarrow> (None, c)
      | Some cached \<Rightarrow>
          if now - timestamp cached > ttl cached
          then (None, c\<lparr>resultCache := (resultCache c)(hashQuery query := None)\<rparr>)
          else (Some (data cached), c))"

definition cacheEmbedding ::
  "(string \<Rightarrow> string) \<Rightarrow> int \<Rightarrow> ('a, 'v) QueryCache \<Rightarrow> string \<Rightarrow> 'v \<Rightarrow> ('a, 'v) QueryCache" where
  "cacheEmbedding hashQuery now c text v =
     c\<lparr>embeddingCache := (embeddingCache c)(hashQuery text \<mapsto> \<lparr>vector = v, emb_timestamp = now\<rparr>)\<rparr>"

definition getEmbedding ::
  "(string \<Rightarrow> string) \<Rightarrow> int \<Rightarrow> ('a, 'v) QueryCache \<Rightarrow> string \<Rightarrow> 'v option \<times> ('a, 'v) QueryCache" where
  "getEmbedding hashQuery now c text =
     (case embeddingCache c (hashQuery text) of
        None \<Rightarrow> (None, c)
      | Some cached \<Rightarrow>
          if now - emb_timestamp cached > EMBEDDING_TTL
          then (None, c\<lparr>embeddingCache := (embeddingCache c)(hashQuery text := None)\<rparr>)
          else (Some (vector cached), c))"

text \<open>
  \<open>SemanticEmbedder.embedText\<close> (embedder.ts) once the model is loaded: the cache is read
  at time \<open>t_read\<close>; on a miss the model \<open>extractor\<close> runs (it may throw, \<open>Inl\<close>) and its
  vector is stored at time \<open>t_write\<close>.
\<close>

definition embedText ::
  "(string \<Rightarrow> string + 'v) \<Rightarrow> (string \<Rightarrow> string) \<Rightarrow> int \<Rightarrow> int \<Rightarrow> ('a, 'v) QueryCache \<Rightarrow> string
     \<Rightarrow> (string + 'v) \<times> ('a, 'v) QueryCache" where
  "embedText extractor hashQuery t_read t_write c text =
     (case getEmbedding hashQuery t_read c text of
        (Some cached, c') \<Rightarrow> (Inr cached, c')
      | (None, c') \<Rightarrow>
          (case extractor text of
             Inl err \<Rightarrow> (Inl (''Failed to embed text: '' @ err), c')
           | Inr embedding \<Rightarrow> (Inr embedding, cacheEmbedding hashQuery t_write c' text embedding)))"

section \<open>Schema registry (schema-registry.ts)\<close>

record ColumnInfo =
  col_type :: string
  col_description :: "string option"
  col_values :: "string list option"
  col_unit :: "string option"
  aggregatable :: "string option"

record Relationship =
  rel_table :: string
  join_key :: string

record TableSchema =
  table_name :: string
  description :: string
  columns :: "(string \<times> ColumnInfo) list"
  relationships :: "Relationship list"
  sensitive_fields :: "string list"

type_synonym FullSchema = "(string \<times> TableSchema) list"

definition schema_lookup :: "FullSchema \<Rightarrow> string \<Rightarrow> TableSchema option" where
  "schema_lookup schema tableName = map_of schema tableName"

definition Object_keys :: "(string \<times> 'a) list \<Rightarrow> string list" where
  "Object_keys obj = map fst obj"

section \<open>Semantic retriever (semantic-retriever.ts)\<close>

record RetrievedModel =
  m_id :: string
  m_name :: string
  m_description :: string
  m_sql :: string
  m_score :: real

record RetrievedColumn =
  c_table :: string
  c_column :: string
  c_type :: string
  c_description :: string
  c_unit :: "string option"
  c_score :: real

record RetrievedRelationship =
  from_table :: string
  to_table :: string
  join_condition :: string

record SemanticContext =
  models :: "RetrievedModel list"
  ctx_columns :: "RetrievedColumn list"
  ctx_relationships :: "RetrievedRelationship list"
  tables_involved :: "string list"
  context_text :: string
  token_estimate :: nat

datatype QueryIntent = COUNT | JOIN | AGGREGATE | TIME_BASED | RANK | FILTER | UNKNOWN

definition detectQueryIntent :: "string \<Rightarrow> QueryIntent" where
  "detectQueryIntent query =
     (let lowerQuery = toLowerCase query in
      if str_includes lowerQuery ''how many'' \<or> str_includes lowerQuery ''count''
         \<or> str_includes lowerQuery ''total number''
      then COUNT
      else if str_includes lowerQuery ''join'' \<or> str_includes lowerQuery ''relate''
         \<or> str_includes lowerQuery ''associate''
         \<or> (str_includes lowerQuery ''with'' \<and> str_includes lowerQuery ''their'')
      then JOIN
      else if str_includes lowerQuery ''month'' \<or> str_includes lowerQuery ''year''
         \<or> str_includes lowerQuery ''date'' \<or> str_includes lowerQuery ''timeline''
         \<or> str_includes lowerQuery ''trend'' \<or> str_includes lowerQuery ''over time''
      then TIME_BASED
      else if str_includes lowerQuery ''top'' \<or> str_includes lowerQuery ''bottom''
         \<or> str_includes lowerQuery ''rank'' \<or> str_includes lowerQuery ''highest''
         \<or> str_includes lowerQuery ''lowest'' \<or> str_includes lowerQuery ''best''
         \<or> str_includes lowerQuery ''worst''
      then RANK
      else if str_includes lowerQuery ''average'' \<or> str_includes lowerQuery ''sum''
         \<or> str_includes lowerQuery ''total'' \<or> str_includes lowerQuery ''breakdown''
         \<or> str_includes lowerQuery ''distribution'' \<or> str_includes lowerQuery ''analysis by''
      then AGGREGATE
      else if str_includes lowerQuery ''where'' \<or> str_includes lowerQuery ''filter''
         \<or> str_includes lowerQuery ''specific'' \<or> str_includes lowerQuery ''over budget''
         \<or> str_includes lowerQuery ''exceeds''
      then FILTER
      else UNKNOWN)"

fun intentOperations :: "QueryIntent \<Rightarrow> string list" where
  "intentOperations COUNT = [''COUNT'']"
| "intentOperations JOIN = [''JOIN'', ''LEFT JOIN'']"
| "intentOperations AGGREGATE = [''GROUP BY'', ''SUM'', ''AVG'']"
| "intentOperations TIME_BASED = [''DATE'', ''DATE_TRUNC'', ''INTERVAL'']"
| "intentOperations RANK = [''ORDER BY'', ''LIMIT'']"
| "intentOperations FILTER = [''WHERE'']"
| "intentOperations UNKNOWN = []"

definition filterModelsByIntent :: "RetrievedModel list \<Rightarrow> QueryIntent \<Rightarrow> RetrievedModel list" where
  "filterModelsByIntent ms intent =
     (if intentOperations intent = [] then ms
      else filter (\<lambda>model. list_ex (\<lambda>op. str_includes (toUpperCase (m_sql model)) op)
                                   (intentOperations intent)) ms)"

text \<open>
  A point returned by the vector index: \<open>{id, payload, score}\<close>. The payload is an
  untyped JSON object; the fields this program reads are strings, so it is a partial
  map from field names to strings, and it may be absent (\<open>r.payload?.x\<close>).
\<close>

record ScoredPoint =
  p_id :: string
  payload :: "(string \<rightharpoonup> string) option"
  score :: "real option"

definition pget :: "ScoredPoint \<Rightarrow> string \<Rightarrow> string option" where
  \<comment> \<open>\<open>r.payload?.field\<close>\<close>
  "pget r field = (case payload r of None \<Rightarrow> None | Some pl \<Rightarrow> pl field)"

definition or_else :: "string option \<Rightarrow> string \<Rightarrow> string" where
  \<comment> \<open>\<open>x || d\<close> on a string or \<open>undefined\<close>: the empty string is falsy too\<close>
  "or_else x d = (case x of None \<Rightarrow> d | Some v \<Rightarrow> if v = [] then d else v)"

definition score_or_zero :: "real option \<Rightarrow> real" where
  \<comment> \<open>\<open>r.score || 0\<close>\<close>
  "score_or_zero x = (case x of None \<Rightarrow> 0 | Some v \<Rightarrow> v)"

definition to_model :: "ScoredPoint \<Rightarrow> RetrievedModel" where
  "to_model r =
     \<lparr>m_id = or_else (pget r ''id'') (p_id r),
      m_name = or_else (pget r ''name'') ''Unknown'',
      m_description = or_else (pget r ''description'') [],
      m_sql = or_else (pget r ''sql'') [],
      m_score = score_or_zero (score r)\<rparr>"

text \<open>
  \<open>sort((a, b) => b.score - a.score)\<close>: descending by score, stable
  (\<open>Array.prototype.sort\<close> is stable), as \<open>sort_key\<close> on the negated score is.
  The embedding call and the vector search of a retrieval are external; what they
  return for the query text and \<open>topK\<close>, or the error they throw, is the parameter
  \<open>search\<close>. Both retrieval functions catch every error and return the empty list.
\<close>

definition retrieveSemanticModels ::
  "(string \<Rightarrow> nat \<Rightarrow> string + ScoredPoint list) \<Rightarrow> string \<Rightarrow> nat \<Rightarrow> RetrievedModel list" where
  "retrieveSemanticModels search query topK =
     (case search query topK of
        Inl err \<Rightarrow> []
      | Inr results \<Rightarrow> sort_key (\<lambda>m. - m_score m) (map to_model results))"

definition to_column :: "ScoredPoint \<Rightarrow> RetrievedColumn" where
  "to_column r =
     \<lparr>c_table = or_else (pget r ''table'') [],
      c_column = or_else (pget r ''column'')
                   (if pget r ''type'' = Some ''table'' then or_else (pget r ''table'') [] else []),
      c_type = or_else (pget r ''data_type'') (or_else (pget r ''type'') []),
      c_description = or_else (pget r ''description'') [],
      c_unit = (case pget r ''unit'' of None \<Rightarrow> None | Some u \<Rightarrow> if u = [] then None else Some u),
      c_score = score_or_zero (score r)\<rparr>"

definition retrieveSchemaMetadata ::
  "(string \<Rightarrow> nat \<Rightarrow> string + ScoredPoint list) \<Rightarrow> string \<Rightarrow> nat \<Rightarrow> RetrievedColumn list" where
  "retrieveSchemaMetadata search query topK =
     (case search query topK of
        Inl err \<Rightarrow> []
      | Inr results \<Rightarrow>
          sort_key (\<lambda>c. - c_score c)
            (filter (\<lambda>c. c_column c \<noteq> [] \<and> c_table c \<noteq> []) (map to_column results)))"

text \<open>
  \<open>expandRelationships\<close>: the closure \<open>traverse\<close> mutates the array \<open>relationships\<close>
  and the set \<open>visited\<close>; here it takes and returns the pair of them.
\<close>

type_synonym TraverseState = "RetrievedRelationship list \<times> string set"

function traverse :: "FullSchema \<Rightarrow> string \<Rightarrow> nat \<Rightarrow> TraverseState \<Rightarrow> TraverseState" where
  "traverse schema tableName depth st =
     (if depth > 2 \<or> tableName \<in> snd st then st
      else
        (case schema_lookup schema tableName of
           None \<Rightarrow> (fst st, insert tableName (snd st))
         | Some tableSchema \<Rightarrow>
             fold (\<lambda>rel s.
                     (let s' = (fst s @ [\<lparr>from_table = tableName, to_table = rel_table rel,
                                          join_condition = join_key rel\<rparr>], snd s)
                      in if depth < 2 then traverse schema (rel_table rel) (depth + 1) s' else s'))
                  (relationships tableSchema)
                  (fst st, insert tableName (snd st))))"
  by pat_completeness auto
termination
  by (relation "measure (\<lambda>(schema, tableName, depth, st). 3 - depth)") auto

text \<open>
  \<open>new Map(entries)\<close> followed by \<open>.values()\<close>: a repeated key keeps the position of
  its first entry and the value of its last, which is what \<open>AList.update\<close> does.
\<close>

definition Map_values :: "('k \<times> 'v) list \<Rightarrow> 'v list" where
  "Map_values entries = map snd (fold (\<lambda>kv m. AList.update (fst kv) (snd kv) m) entries [])"

definition expandRelationships :: "FullSchema option \<Rightarrow> string list \<Rightarrow> RetrievedRelationship list" where
  "expandRelationships schema_opt tableNames =
     (case schema_opt of
        None \<Rightarrow> []
      | Some schema \<Rightarrow>
          (let rels = fst (fold (\<lambda>tableName st. traverse schema tableName 0 st) tableNames ([], {}))
           in Map_values (map (\<lambda>r. (from_table r @ to_table r, r)) rels)))"


text \<open>
  \<open>Array.from(new Set(xs))\<close>: the distinct elements in order of first occurrence.
\<close>

definition Array_from_Set :: "'a list \<Rightarrow> 'a list" where
  "Array_from_Set xs = fold (\<lambda>x acc. if x \<in> set acc then acc else acc @ [x]) xs []"

definition ARROW :: string where
  \<comment> \<open>the one code unit U+2192 of the relationship lines; it has no HOL character, and
      only its being one unit long enters \<open>text.length\<close>\<close>
  "ARROW = [CHR 0x1A]"

definition render_model :: "RetrievedModel \<Rightarrow> string" where
  "render_model model =
     ''**'' @ m_name model @ ''** - '' @ m_description model @ NL
     @ ''```sql'' @ NL @ m_sql model @ NL @ ''```'' @ NL @ NL"

definition render_column :: "RetrievedColumn \<Rightarrow> string" where
  "render_column col =
     ''  - `'' @ c_column col @ ''` ('' @ c_type col @ '')''
     @ (if c_description col \<noteq> [] then '' - '' @ c_description col else [])
     @ (case c_unit col of Some u \<Rightarrow> '' ['' @ u @ '']'' | None \<Rightarrow> [])
     @ NL"

definition render_table :: "FullSchema option \<Rightarrow> RetrievedColumn list \<Rightarrow> string \<Rightarrow> string" where
  "render_table schema_opt cols tableName =
     (case (case schema_opt of None \<Rightarrow> None | Some schema \<Rightarrow> schema_lookup schema tableName) of
        None \<Rightarrow> []
      | Some tableSchema \<Rightarrow>
          ''**'' @ tableName @ ''** - '' @ description tableSchema @ NL
          @ ''Columns:'' @ NL
          @ concat (map render_column (filter (\<lambda>c. c_table c = tableName) cols))
          @ NL)"

definition render_relationship :: "RetrievedRelationship \<Rightarrow> string" where
  "render_relationship rel =
     ''- `'' @ from_table rel @ ''` '' @ ARROW @ '' `'' @ to_table rel @ ''` on '' @ join_condition rel @ NL"

definition HEADER :: string where
  "HEADER = ''## Relevant SQL Patterns''"

definition buildContextText ::
  "FullSchema option \<Rightarrow> RetrievedModel list \<Rightarrow> RetrievedColumn list \<Rightarrow> RetrievedRelationship list \<Rightarrow> string" where
  "buildContextText schema_opt ms cols rels =
     HEADER @ NL @ NL
     @ (if length ms > 0
        then ''### Examples of Similar Queries:'' @ NL @ NL @ concat (map render_model ms)
        else [])
     @ (let uniqueTables = Array_from_Set (map c_table cols) in
        if length uniqueTables > 0
        then ''### Relevant Schema Tables:'' @ NL @ NL
             @ concat (map (render_table schema_opt cols) uniqueTables)
        else [])
     @ (if length rels > 0
        then ''### Table Relationships:'' @ NL @ NL @ concat (map render_relationship rels) @ NL
        else [])"

definition estimateTokens :: "string \<Rightarrow> nat" where
  \<comment> \<open>\<open>Math.ceil(text.length / 4)\<close>\<close>
  "estimateTokens text = (length text + 3) div 4"

text \<open>
  \<open>buildContext\<close>. The retriever's mutable parts are its \<open>schema\<close> field (\<open>null\<close>
  until \<open>initialize\<close> has run) and the shared \<open>queryCache\<close>; both are returned updated.
  \<open>initialize\<close> loads the embedding model, connects the vector index and loads the schema
  registry; its outcome is the parameter \<open>initialize\<close> (\<open>Inl\<close> when it throws, which
  \<open>buildContext\<close> does not catch). \<open>t_read\<close> and \<open>t_write\<close> are the clock readings of
  the cache lookup and of the cache store.
\<close>

type_synonym RetrieverState = "FullSchema option \<times> (SemanticContext, real list) QueryCache"

definition buildContext ::
  "(string \<Rightarrow> string) \<Rightarrow> int \<Rightarrow> int \<Rightarrow> (string + FullSchema)
     \<Rightarrow> (string \<Rightarrow> nat \<Rightarrow> string + ScoredPoint list)
     \<Rightarrow> (string \<Rightarrow> nat \<Rightarrow> string + ScoredPoint list)
     \<Rightarrow> RetrieverState \<Rightarrow> string \<Rightarrow> nat
     \<Rightarrow> (string + SemanticContext) \<times> RetrieverState" where
  "buildContext hashQuery t_read t_write initialize searchSemanticModels searchSchemaMetadata
       st query maxTokens =
     (case getResult hashQuery t_read (snd st) query of
        (Some cachedContext, cache1) \<Rightarrow> (Inr cachedContext, (fst st, cache1))
      | (None, cache1) \<Rightarrow>
          (case (case fst st of Some schema \<Rightarrow> Inr schema | None \<Rightarrow> initialize) of
             Inl err \<Rightarrow> (Inl err, (fst st, cache1))
           | Inr schema \<Rightarrow>
               (let intent = detectQueryIntent query;
                    ms = filterModelsByIntent (retrieveSemanticModels searchSemanticModels query 5) intent;
                    cols = retrieveSchemaMetadata searchSchemaMetadata query 10;
                    tableNames = Array_from_Set (map c_table cols);
                    rels = expandRelationships (Some schema) tableNames;
                    contextText = buildContextText (Some schema) ms cols rels;
                    tokenEstimate = estimateTokens contextText;
                    context = \<lparr>models = ms, ctx_columns = cols, ctx_relationships = rels,
                               tables_involved = tableNames, context_text = contextText,
                               token_estimate = tokenEstimate\<rparr>
                in (Inr context,
                    (Some schema, cacheResult hashQuery t_write cache1 query context DEFAULT_TTL)))))"

section \<open>Cache expiry\<close>

text \<open>
  C9. In both namespaces a read of an entry older than its ttl is a miss and removes the
  entry, and a read within the ttl returns the stored value unchanged and leaves the cache
  as it was. A value stored under a text is what a read of the same text within the ttl
  returns. An embedding stored at time \<open>T\<close> and read at \<open>T + 1 hour + eps\<close>, \<open>eps > 0\<close>,
  is a miss, so \<open>embedText\<close> runs the model again and stores the fresh vector.
\<close>

theorem cache_ttl_expiry:
  fixes c :: "('a, 'v) QueryCache"
  shows
  "(resultCache c (h q) = Some e \<longrightarrow>
      getResult h now c q =
        (if now - timestamp e > ttl e
         then (None, c\<lparr>resultCache := (resultCache c)(h q := None)\<rparr>)
         else (Some (data e), c)))
   \<and> (embeddingCache c (h q) = Some ee \<longrightarrow>
      getEmbedding h now c q =
        (if now - emb_timestamp ee > 60 * 60 * 1000
         then (None, c\<lparr>embeddingCache := (embeddingCache c)(h q := None)\<rparr>)
         else (Some (vector ee), c)))
   \<and> (T' - T \<le> t \<longrightarrow>
      fst (getResult h T' (cacheResult h T c q d t) q) = Some d)
   \<and> (T' - T > t \<longrightarrow>
      fst (getResult h T' (cacheResult h T c q d t) q) = None
      \<and> resultCache (snd (getResult h T' (cacheResult h T c q d t) q)) (h q) = None)
   \<and> (T' - T \<le> 60 * 60 * 1000 \<longrightarrow>
      fst (getEmbedding h T' (cacheEmbedding h T c q v) q) = Some v)
   \<and> (0 < eps \<longrightarrow>
      fst (getEmbedding h (T + 60 * 60 * 1000 + eps) (cacheEmbedding h T c q v) q) = None
      \<and> embeddingCache (snd (getEmbedding h (T + 60 * 60 * 1000 + eps) (cacheEmbedding h T c q v) q)) (h q) = None
      \<and> (extractor q = Inr v' \<longrightarrow>
           fst (embedText extractor h (T + 60 * 60 * 1000 + eps) Tw (cacheEmbedding h T c q v) q) = Inr v'
           \<and> embeddingCache (snd (embedText extractor h (T + 60 * 60 * 1000 + eps) Tw (cacheEmbedding h T c q v) q)) (h q)
               = Some \<lparr>vector = v', emb_timestamp = Tw\<rparr>))"
  by (simp add: getResult_def getEmbedding_def cacheResult_def cacheEmbedding_def
      embedText_def EMBEDDING_TTL_def)

theorem cache_ttl_expiry_witness:
  "fst (getEmbedding id (1000 + 60 * 60 * 1000 + 1)
         (cacheEmbedding id 1000 \<lparr>resultCache = Map.empty, embeddingCache = Map.empty\<rparr> ''q'' [1::int]) ''q'')
     = None
   \<and> fst (getEmbedding id (1000 + 60 * 60 * 1000)
         (cacheEmbedding id 1000 \<lparr>resultCache = Map.empty, embeddingCache = Map.empty\<rparr> ''q'' [1::int]) ''q'')
     = Some [1]
   \<and> fst (getResult id (1000 + 300000)
         (cacheResult id 1000 \<lparr>resultCache = Map.empty, embeddingCache = Map.empty\<rparr> ''q'' (7::nat) DEFAULT_TTL) ''q'')
     = Some 7
   \<and> fst (embedText (\<lambda>s. Inr [2]) id (1000 + 60 * 60 * 1000 + 1) 3601002
         (cacheEmbedding id 1000 \<lparr>resultCache = Map.empty, embeddingCache = Map.empty\<rparr> ''q'' [1::int]) ''q'')
     = Inr [2]"
  using cache_ttl_expiry [where h = id and q = "''q''" and T = 1000 and eps = 1 and v = "[1::int]"
      and c = "\<lparr>resultCache = Map.empty, embeddingCache = Map.empty\<rparr> :: (nat, int list) QueryCache"
      and T' = "1000 + 300000" and t = DEFAULT_TTL and d = 7 and extractor = "\<lambda>s. Inr [2]" and v' = "[2]"
      and Tw = 3601002]
  by (simp add: getResult_def getEmbedding_def cacheResult_def cacheEmbedding_def
      embedText_def EMBEDDING_TTL_def DEFAULT_TTL_def)

section \<open>Relationship expansion\<close>

declare traverse.simps [simp del]

definition schema_edge :: "FullSchema \<Rightarrow> string \<Rightarrow> string \<Rightarrow> bool" where
  "schema_edge schema a b =
     (case schema_lookup schema a of
        None \<Rightarrow> False
      | Some tableSchema \<Rightarrow> list_ex (\<lambda>rel. rel_table rel = b) (relationships tableSchema))"

fun within_depth :: "FullSchema \<Rightarrow> nat \<Rightarrow> string \<Rightarrow> string \<Rightarrow> bool" where
  "within_depth schema 0 a b = (a = b)"
| "within_depth schema (Suc n) a b =
     (a = b \<or>
      (case schema_lookup schema a of
         None \<Rightarrow> False
       | Some tableSchema \<Rightarrow>
           list_ex (\<lambda>rel. within_depth schema n (rel_table rel) b) (relationships tableSchema)))"

definition edge_ok :: "FullSchema \<Rightarrow> nat \<Rightarrow> string \<Rightarrow> RetrievedRelationship \<Rightarrow> bool" where
  "edge_ok schema n t e =
     (within_depth schema n t (from_table e) \<and> schema_edge schema (from_table e) (to_table e))"

lemma within_depth_refl: "within_depth schema n a a"
  by (cases n) simp_all

lemma within_depth_step:
  assumes "schema_lookup schema a = Some ts" and "rel \<in> set (relationships ts)"
    and "within_depth schema n (rel_table rel) b"
  shows "within_depth schema (Suc n) a b"
  using assms by (auto simp: list_ex_iff)

lemma edge_ok_step:
  assumes "schema_lookup schema a = Some ts" and "rel \<in> set (relationships ts)"
    and "edge_ok schema n (rel_table rel) e"
  shows "edge_ok schema (Suc n) a e"
  using assms within_depth_step unfolding edge_ok_def by blast

text \<open>The loop over the relationships of one table, given what each recursive call adds.\<close>

lemma traverse_loop_adds:
  assumes rec: "\<And>rel s s'. rel \<in> set rs \<Longrightarrow>
            s' = (fst s @ [\<lparr>from_table = t, to_table = rel_table rel,
                              join_condition = join_key rel\<rparr>], snd s) \<Longrightarrow> d < 2 \<Longrightarrow>
            \<exists>new. fst (traverse schema (rel_table rel) (d + 1) s') = fst s' @ new
                  \<and> (\<forall>e\<in>set new. edge_ok schema (2 - (d + 1)) (rel_table rel) e)"
    and sub: "set rs \<subseteq> set (relationships ts)" and look: "schema_lookup schema t = Some ts"
    and d: "d \<le> 2"
  shows "\<exists>new. fst (fold (\<lambda>rel s.
                     (let s' = (fst s @ [\<lparr>from_table = t, to_table = rel_table rel,
                                          join_condition = join_key rel\<rparr>], snd s)
                      in if d < 2 then traverse schema (rel_table rel) (d + 1) s' else s'))
                  rs sinit) = fst sinit @ new
              \<and> (\<forall>e\<in>set new. edge_ok schema (2 - d) t e)"
  using rec sub
proof (induction rs arbitrary: sinit)
  case Nil
  then show ?case by simp
next
  case (Cons r rs)
  let ?e = "\<lparr>from_table = t, to_table = rel_table r, join_condition = join_key r\<rparr>"
  let ?s' = "(fst sinit @ [?e], snd sinit)"
  let ?s1 = "if d < 2 then traverse schema (rel_table r) (d + 1) ?s' else ?s'"
  let ?body = "\<lambda>rel s.
                     (let s' = (fst s @ [\<lparr>from_table = t, to_table = rel_table rel,
                                          join_condition = join_key rel\<rparr>], snd s)
                      in if d < 2 then traverse schema (rel_table rel) (d + 1) s' else s')"
  have r_in: "r \<in> set (relationships ts)" using Cons.prems(2) by simp
  have e_ok: "edge_ok schema (2 - d) t ?e"
    using look r_in by (auto simp: edge_ok_def within_depth_refl schema_edge_def list_ex_iff)
  have step: "\<exists>new1. fst ?s1 = fst sinit @ new1 \<and> (\<forall>e\<in>set new1. edge_ok schema (2 - d) t e)"
  proof (cases "d < 2")
    case True
    have "\<exists>new. fst (traverse schema (rel_table r) (d + 1) ?s') = fst ?s' @ new
                  \<and> (\<forall>e\<in>set new. edge_ok schema (2 - (d + 1)) (rel_table r) e)"
      using Cons.prems(1)[of r ?s' sinit] True by simp
    then obtain new where
      n1: "fst (traverse schema (rel_table r) (d + 1) ?s') = fst ?s' @ new"
      and n2: "\<forall>e\<in>set new. edge_ok schema (2 - (d + 1)) (rel_table r) e" by blast
    have eq: "2 - d = Suc (2 - (d + 1))" using True by simp
    have "\<forall>e\<in>set new. edge_ok schema (2 - d) t e"
      unfolding eq using n2 edge_ok_step[OF look r_in] by blast
    then show ?thesis using n1 e_ok True by (intro exI[of _ "?e # new"]) simp
  next
    case False
    then show ?thesis using e_ok by (intro exI[of _ "[?e]"]) simp
  qed
  then obtain new1 where a1: "fst ?s1 = fst sinit @ new1"
    and a2: "\<forall>e\<in>set new1. edge_ok schema (2 - d) t e" by blast
  have "\<exists>new. fst (fold ?body rs ?s1) = fst ?s1 @ new
              \<and> (\<forall>e\<in>set new. edge_ok schema (2 - d) t e)"
  proof (rule Cons.IH)
    fix rel :: Relationship and s s' :: TraverseState
    assume "rel \<in> set rs" and "s' = (fst s @ [\<lparr>from_table = t, to_table = rel_table rel,
                              join_condition = join_key rel\<rparr>], snd s)" and "d < 2"
    then show "\<exists>new. fst (traverse schema (rel_table rel) (d + 1) s') = fst s' @ new
                  \<and> (\<forall>e\<in>set new. edge_ok schema (2 - (d + 1)) (rel_table rel) e)"
      using Cons.prems(1)[of rel s' s] by simp
  next
    show "set rs \<subseteq> set (relationships ts)" using Cons.prems(2) by simp
  qed
  then obtain new2 where b1: "fst (fold ?body rs ?s1) = fst ?s1 @ new2"
    and b2: "\<forall>e\<in>set new2. edge_ok schema (2 - d) t e" by blast
  have "fold ?body (r # rs) sinit = fold ?body rs ?s1" by (simp add: Let_def)
  then have "fst (fold ?body (r # rs) sinit) = fst sinit @ (new1 @ new2)"
    using a1 b1 by simp
  moreover have "\<forall>e\<in>set (new1 @ new2). edge_ok schema (2 - d) t e" using a2 b2 by auto
  ultimately show ?case by blast
qed

lemma traverse_adds:
  "\<exists>new. fst (traverse schema t d st) = fst st @ new
         \<and> (\<forall>e\<in>set new. edge_ok schema (2 - d) t e)"
proof (induction schema t d st rule: traverse.induct)
  case (1 schema tableName depth st)
  show ?case
  proof (cases "depth > 2 \<or> tableName \<in> snd st")
    case True
    then show ?thesis by (subst traverse.simps) simp
  next
    case False
    show ?thesis
    proof (cases "schema_lookup schema tableName")
      case None
      then show ?thesis using False by (subst traverse.simps) simp
    next
      case (Some ts)
      have d: "depth \<le> 2" using False by simp
      show ?thesis
        using traverse_loop_adds[where rs = "relationships ts" and sinit = "(fst st, insert tableName (snd st))",
            OF "1.IH"[OF False Some] subset_refl Some d] False Some
        by (subst traverse.simps) simp
    qed
  qed
qed

text \<open>The loop over the seed tables at depth 0.\<close>

lemma seeds_loop_adds:
  "\<exists>new. fst (fold (\<lambda>tableName st. traverse schema tableName 0 st) seeds stinit) = fst stinit @ new
         \<and> (\<forall>e\<in>set new. \<exists>seed\<in>set seeds. edge_ok schema 2 seed e)"
proof (induction seeds arbitrary: stinit)
  case Nil
  then show ?case by simp
next
  case (Cons t ts)
  obtain new1 where a: "fst (traverse schema t 0 stinit) = fst stinit @ new1"
    and a2: "\<forall>e\<in>set new1. edge_ok schema 2 t e"
    using traverse_adds[of schema t 0 stinit] by auto
  obtain new2 where b: "fst (fold (\<lambda>tableName st. traverse schema tableName 0 st) ts (traverse schema t 0 stinit))
        = fst (traverse schema t 0 stinit) @ new2"
    and b2: "\<forall>e\<in>set new2. \<exists>seed\<in>set ts. edge_ok schema 2 seed e"
    using Cons.IH[of "traverse schema t 0 stinit"] by blast
  have "fst (fold (\<lambda>tableName st. traverse schema tableName 0 st) (t # ts) stinit) = fst stinit @ (new1 @ new2)"
    using a b by simp
  moreover have "\<forall>e\<in>set (new1 @ new2). \<exists>seed\<in>set (t # ts). edge_ok schema 2 seed e"
    using a2 b2 by auto
  ultimately show ?case by blast
qed

lemma AList_update_values: "snd ` set (AList.update k v al) \<subseteq> insert v (snd ` set al)"
  by (induction al) auto

lemma Map_fold_values:
  "snd ` set (fold (\<lambda>kv m. AList.update (fst kv) (snd kv) m) entries acc)
     \<subseteq> snd ` set entries \<union> snd ` set acc"
proof (induction entries arbitrary: acc)
  case Nil
  then show ?case by simp
next
  case (Cons kv entries)
  have "snd ` set (fold (\<lambda>kv m. AList.update (fst kv) (snd kv) m) entries (AList.update (fst kv) (snd kv) acc))
      \<subseteq> snd ` set entries \<union> snd ` set (AList.update (fst kv) (snd kv) acc)"
    by (rule Cons.IH)
  also have "\<dots> \<subseteq> snd ` set entries \<union> insert (snd kv) (snd ` set acc)"
    using AList_update_values[of "fst kv" "snd kv" acc] by blast
  finally show ?case by auto
qed

lemma Map_values_subset: "set (Map_values entries) \<subseteq> snd ` set entries"
  using Map_fold_values[of entries "[]"] by (simp add: Map_values_def)

text \<open>
  C7. Every edge returned by relationship expansion starts at a table that is at most two
  relationship steps away from one of the seed tables, and is a relationship the registry
  declares for that table; tables further down a chain of foreign keys contribute no edge.
\<close>

theorem expansion_depth_bound:
  assumes "e \<in> set (expandRelationships (Some schema) seeds)"
  shows "\<exists>seed\<in>set seeds.
           within_depth schema 2 seed (from_table e) \<and> schema_edge schema (from_table e) (to_table e)"
proof -
  let ?rels = "fst (fold (\<lambda>tableName st. traverse schema tableName 0 st) seeds ([], {}))"
  have "e \<in> set ?rels"
    using assms Map_values_subset[of "map (\<lambda>r. (from_table r @ to_table r, r)) ?rels"]
    by (auto simp: expandRelationships_def Let_def)
  moreover obtain new where "?rels = [] @ new"
    and "\<forall>e\<in>set new. \<exists>seed\<in>set seeds. edge_ok schema 2 seed e"
    using seeds_loop_adds[of schema seeds "([], {})"] by auto
  ultimately show ?thesis by (auto simp: edge_ok_def)
qed


definition chain_schema :: FullSchema where
  "chain_schema =
     [(''a'', \<lparr>table_name = ''a'', description = ''A'', columns = [],
               relationships = [\<lparr>rel_table = ''b'', join_key = ''id:a_id''\<rparr>], sensitive_fields = []\<rparr>),
      (''b'', \<lparr>table_name = ''b'', description = ''B'', columns = [],
               relationships = [\<lparr>rel_table = ''c'', join_key = ''id:b_id''\<rparr>], sensitive_fields = []\<rparr>),
      (''c'', \<lparr>table_name = ''c'', description = ''C'', columns = [],
               relationships = [\<lparr>rel_table = ''d'', join_key = ''id:c_id''\<rparr>], sensitive_fields = []\<rparr>),
      (''d'', \<lparr>table_name = ''d'', description = ''D'', columns = [],
               relationships = [\<lparr>rel_table = ''e'', join_key = ''id:d_id''\<rparr>], sensitive_fields = []\<rparr>),
      (''e'', \<lparr>table_name = ''e'', description = ''E'', columns = [],
               relationships = [], sensitive_fields = []\<rparr>)]"

lemma chain_expansion:
  "expandRelationships (Some chain_schema) [''a''] =
     [\<lparr>from_table = ''a'', to_table = ''b'', join_condition = ''id:a_id''\<rparr>,
      \<lparr>from_table = ''b'', to_table = ''c'', join_condition = ''id:b_id''\<rparr>,
      \<lparr>from_table = ''c'', to_table = ''d'', join_condition = ''id:c_id''\<rparr>]"
  by (simp add: expandRelationships_def chain_schema_def traverse.simps schema_lookup_def Map_values_def)

text \<open>
  C7 on a chain \<open>a \<rightarrow> b \<rightarrow> c \<rightarrow> d \<rightarrow> e\<close> expanded from \<open>a\<close>: the edge from \<open>c\<close>
  (depth 2) is returned, the edge from \<open>d\<close> (depth 3) is not.
\<close>

theorem expansion_depth_bound_witness:
  "\<lparr>from_table = ''c'', to_table = ''d'', join_condition = ''id:c_id''\<rparr>
      \<in> set (expandRelationships (Some chain_schema) [''a''])
   \<and> (\<exists>seed\<in>set [''a'']. within_depth chain_schema 2 seed ''c'' \<and> schema_edge chain_schema ''c'' ''d'')
   \<and> \<lparr>from_table = ''d'', to_table = ''e'', join_condition = ''id:d_id''\<rparr>
      \<notin> set (expandRelationships (Some chain_schema) [''a''])"
proof -
  have mem: "\<lparr>from_table = ''c'', to_table = ''d'', join_condition = ''id:c_id''\<rparr>
      \<in> set (expandRelationships (Some chain_schema) [''a''])"
    by (simp add: chain_expansion)
  show ?thesis
    using expansion_depth_bound[OF mem] mem by (simp add: chain_expansion)
qed



section \<open>The context document\<close>

definition context_ok :: "SemanticContext \<Rightarrow> bool" where
  "context_ok ctx =
     (startsWith (context_text ctx) HEADER \<and> token_estimate ctx = estimateTokens (context_text ctx))"

definition cache_wf :: "(SemanticContext, real list) QueryCache \<Rightarrow> bool" where
  "cache_wf c = (\<forall>k e. resultCache c k = Some e \<longrightarrow> context_ok (data e))"

definition empty_cache :: "(SemanticContext, real list) QueryCache" where
  "empty_cache = \<lparr>resultCache = Map.empty, embeddingCache = Map.empty\<rparr>"

definition demo_schema :: FullSchema where
  "demo_schema =
     [(''users'', \<lparr>table_name = ''users'', description = ''User profiles'',
         columns = [(''id'', \<lparr>col_type = ''uuid'', col_description = Some ''Primary key'',
                               col_values = None, col_unit = None, aggregatable = None\<rparr>)],
         relationships = [\<lparr>rel_table = ''accounts'', join_key = ''id:user_id''\<rparr>],
         sensitive_fields = [''id'']\<rparr>)]"

definition demo_models :: "ScoredPoint list" where
  "demo_models =
     [\<lparr>p_id = ''1'',
       payload = Some [''name'' \<mapsto> ''All users'', ''description'' \<mapsto> ''List users'',
                       ''sql'' \<mapsto> ''SELECT * FROM users''],
       score = Some 0.9\<rparr>]"

definition demo_columns :: "ScoredPoint list" where
  "demo_columns =
     [\<lparr>p_id = ''7'',
       payload = Some [''table'' \<mapsto> ''users'', ''column'' \<mapsto> ''email'', ''data_type'' \<mapsto> ''text''],
       score = Some 0.5\<rparr>]"

lemmas demo_eval =
  buildContext_def getResult_def cacheResult_def empty_cache_def detectQueryIntent_def
  toLowerCase_def toLowerChar_def toUpperCase_def toUpperChar_def lower_upper_def
  filterModelsByIntent_def retrieveSemanticModels_def retrieveSchemaMetadata_def
  demo_models_def demo_columns_def demo_schema_def to_model_def to_column_def pget_def
  or_else_def score_or_zero_def Let_def Array_from_Set_def expandRelationships_def
  traverse.simps schema_lookup_def Map_values_def buildContextText_def render_model_def
  render_column_def render_table_def render_relationship_def HEADER_def NL_def ARROW_def
  estimateTokens_def DEFAULT_TTL_def

lemma startsWith_append: "startsWith (p @ rest) p"
  by (induction p) simp_all

lemma startsWith_nonempty: "startsWith s p \<Longrightarrow> p \<noteq> [] \<Longrightarrow> s \<noteq> []"
  by (cases s; cases p) simp_all

lemma buildContextText_header: "startsWith (buildContextText schema_opt ms cols rels) HEADER"
  unfolding buildContextText_def by (simp only: append_assoc startsWith_append)

lemma estimateTokens_pos: "s \<noteq> [] \<Longrightarrow> 1 \<le> estimateTokens s"
  by (cases s) (simp_all add: estimateTokens_def)

lemma HEADER_nonempty: "HEADER \<noteq> []"
  by (simp add: HEADER_def)

lemma context_ok_props:
  assumes "context_ok ctx"
  shows "startsWith (context_text ctx) HEADER" "context_text ctx \<noteq> []" "1 \<le> token_estimate ctx"
  using assms startsWith_nonempty[OF _ HEADER_nonempty, of "context_text ctx"] estimateTokens_pos
  by (auto simp: context_ok_def)

lemma cache_wf_store:
  "cache_wf c \<Longrightarrow> context_ok ctx \<Longrightarrow> cache_wf (cacheResult h t c q ctx ttl0)"
  by (auto simp: cache_wf_def cacheResult_def)

lemma cache_wf_read:
  "cache_wf c \<Longrightarrow> cache_wf (snd (getResult h t c q))"
  by (auto simp: cache_wf_def getResult_def split: option.splits)

lemma cache_wf_hit:
  "cache_wf c \<Longrightarrow> fst (getResult h t c q) = Some ctx \<Longrightarrow> context_ok ctx"
  by (auto simp: cache_wf_def getResult_def split: option.splits if_splits)

text \<open>
  C10. The context text of every context that \<open>buildContext\<close> returns begins with the
  header \<open>## Relevant SQL Patterns\<close>, so it is not empty and the token estimate is at least
  1. A context taken from the cache is one that an earlier call stored (\<open>buildContext\<close> is
  the only writer of the result cache), which is the invariant \<open>cache_wf\<close>; every call
  preserves it. With no patterns, columns and relationships a freshly built text is the
  header and two newlines, 7 tokens.
\<close>

theorem context_text_never_empty:
  assumes wf: "cache_wf (snd st)"
    and ret: "fst (buildContext h tr tw init sm sc st q b) = Inr ctx"
  shows "startsWith (context_text ctx) ''## Relevant SQL Patterns''
         \<and> context_text ctx \<noteq> []
         \<and> 1 \<le> token_estimate ctx
         \<and> cache_wf (snd (snd (buildContext h tr tw init sm sc st q b)))
         \<and> (fst (getResult h tr (snd st) q) = None \<longrightarrow>
              models ctx = [] \<longrightarrow> ctx_columns ctx = [] \<longrightarrow> ctx_relationships ctx = [] \<longrightarrow>
              context_text ctx = ''## Relevant SQL Patterns'' @ NL @ NL \<and> token_estimate ctx = 7)"
proof -
  obtain r c1 where g: "getResult h tr (snd st) q = (r, c1)" by (cases "getResult h tr (snd st) q")
  have c1_wf: "cache_wf c1" using cache_wf_read[OF wf, of h tr q] g by simp
  show ?thesis
  proof (cases r)
    case (Some cached)
    then have "ctx = cached" using ret g by (simp add: buildContext_def)
    moreover have "context_ok cached" using cache_wf_hit[OF wf, of h tr q cached] g Some by simp
    ultimately show ?thesis
      using context_ok_props[of ctx] c1_wf g Some
      by (simp add: buildContext_def HEADER_def)
  next
    case None
    show ?thesis
    proof (cases "case fst st of Some schema \<Rightarrow> Inr schema | None \<Rightarrow> init")
      case (Inl err)
      then show ?thesis using ret g None by (simp add: buildContext_def)
    next
      case (Inr schema)
      let ?ms = "filterModelsByIntent (retrieveSemanticModels sm q 5) (detectQueryIntent q)"
      let ?cols = "retrieveSchemaMetadata sc q 10"
      let ?rels = "expandRelationships (Some schema) (Array_from_Set (map c_table ?cols))"
      let ?text = "buildContextText (Some schema) ?ms ?cols ?rels"
      have ctx: "ctx = \<lparr>models = ?ms, ctx_columns = ?cols, ctx_relationships = ?rels,
                        tables_involved = Array_from_Set (map c_table ?cols), context_text = ?text,
                        token_estimate = estimateTokens ?text\<rparr>"
        using ret g None Inr by (simp add: buildContext_def Let_def)
      have ok: "context_ok ctx"
        using buildContextText_header by (simp add: ctx context_ok_def)
      have st': "snd (snd (buildContext h tr tw init sm sc st q b)) = cacheResult h tw c1 q ctx DEFAULT_TTL"
        using g None Inr ctx by (simp add: buildContext_def Let_def)
      have empty: "models ctx = [] \<Longrightarrow> ctx_columns ctx = [] \<Longrightarrow> ctx_relationships ctx = [] \<Longrightarrow>
          context_text ctx = ''## Relevant SQL Patterns'' @ NL @ NL \<and> token_estimate ctx = 7"
        by (simp add: ctx buildContextText_def Array_from_Set_def HEADER_def NL_def estimateTokens_def)
      show ?thesis
        using context_ok_props[OF ok] cache_wf_store[OF c1_wf ok] st' empty
        by (simp add: HEADER_def)
    qed
  qed
qed

text \<open>
  C10 with both retrievals failing: the context is the bare header.
\<close>

theorem context_text_never_empty_witness:
  "context_text (projr (fst (buildContext id 0 1 (Inl ''no index'') (\<lambda>q k. Inl ''down'') (\<lambda>q k. Inl ''down'')
       (Some demo_schema, empty_cache) ''what is my balance'' 600))) = ''## Relevant SQL Patterns'' @ NL @ NL
   \<and> token_estimate (projr (fst (buildContext id 0 1 (Inl ''no index'') (\<lambda>q k. Inl ''down'') (\<lambda>q k. Inl ''down'')
       (Some demo_schema, empty_cache) ''what is my balance'' 600))) = 7"
proof -
  let ?r = "buildContext id 0 1 (Inl ''no index'') (\<lambda>q k. Inl ''down'') (\<lambda>q k. Inl ''down'')
       (Some demo_schema, empty_cache) ''what is my balance'' 600"
  have wf: "cache_wf (snd (Some demo_schema, empty_cache))"
    by (simp add: cache_wf_def empty_cache_def)
  have ret: "fst ?r = Inr (projr (fst ?r))"
    by (simp add: buildContext_def getResult_def empty_cache_def Let_def)
  have miss: "fst (getResult id 0 (snd (Some demo_schema, empty_cache)) ''what is my balance'') = None"
    by (simp add: getResult_def empty_cache_def)
  have e1: "models (projr (fst ?r)) = []"
    by (simp add: buildContext_def getResult_def empty_cache_def Let_def retrieveSemanticModels_def
        filterModelsByIntent_def)
  have e2: "ctx_columns (projr (fst ?r)) = []"
    by (simp add: buildContext_def getResult_def empty_cache_def Let_def retrieveSchemaMetadata_def)
  have e3: "ctx_relationships (projr (fst ?r)) = []"
    by (simp add: buildContext_def getResult_def empty_cache_def Let_def retrieveSchemaMetadata_def
        Array_from_Set_def expandRelationships_def Map_values_def)
  show ?thesis
    using context_text_never_empty[OF wf ret] miss e1 e2 e3 by simp
qed

lemma startsWith_iff: "startsWith s p \<longleftrightarrow> (\<exists>post. s = p @ post)"
  by (induction s p rule: startsWith.induct) auto

lemma str_includes_iff: "str_includes s sub \<longleftrightarrow> (\<exists>pre post. s = pre @ sub @ post)"
proof (induction s)
  case Nil
  then show ?case by auto
next
  case (Cons c cs)
  show ?case
  proof
    assume "str_includes (c # cs) sub"
    then consider "startsWith (c # cs) sub" | "str_includes cs sub" by auto
    then show "\<exists>pre post. c # cs = pre @ sub @ post"
    proof cases
      case 1
      then obtain post where "c # cs = sub @ post" using startsWith_iff by blast
      then have "c # cs = [] @ sub @ post" by simp
      then show ?thesis by blast
    next
      case 2
      then obtain pre post where "cs = pre @ sub @ post" using Cons.IH by blast
      then have "c # cs = (c # pre) @ sub @ post" by simp
      then show ?thesis by blast
    qed
  next
    assume "\<exists>pre post. c # cs = pre @ sub @ post"
    then obtain pre post where eq: "c # cs = pre @ sub @ post" by blast
    show "str_includes (c # cs) sub"
    proof (cases pre)
      case Nil
      then have "startsWith (c # cs) sub" using eq startsWith_iff by auto
      then show ?thesis by simp
    next
      case (Cons p pre')
      then have "cs = pre' @ sub @ post" using eq by simp
      then have "str_includes cs sub" using Cons.IH by blast
      then show ?thesis by simp
    qed
  qed
qed

lemma buildContext_miss:
  assumes miss: "fst (getResult h tr (snd st) q) = None"
    and ret: "fst (buildContext h tr tw init sm sc st q b) = Inr ctx"
  shows "\<exists>schema. (case fst st of Some s \<Rightarrow> Inr s | None \<Rightarrow> init) = Inr schema
     \<and> ctx = \<lparr>models = filterModelsByIntent (retrieveSemanticModels sm q 5) (detectQueryIntent q),
              ctx_columns = retrieveSchemaMetadata sc q 10,
              ctx_relationships =
                expandRelationships (Some schema) (Array_from_Set (map c_table (retrieveSchemaMetadata sc q 10))),
              tables_involved = Array_from_Set (map c_table (retrieveSchemaMetadata sc q 10)),
              context_text =
                buildContextText (Some schema)
                  (filterModelsByIntent (retrieveSemanticModels sm q 5) (detectQueryIntent q))
                  (retrieveSchemaMetadata sc q 10)
                  (expandRelationships (Some schema) (Array_from_Set (map c_table (retrieveSchemaMetadata sc q 10)))),
              token_estimate =
                estimateTokens (buildContextText (Some schema)
                  (filterModelsByIntent (retrieveSemanticModels sm q 5) (detectQueryIntent q))
                  (retrieveSchemaMetadata sc q 10)
                  (expandRelationships (Some schema) (Array_from_Set (map c_table (retrieveSchemaMetadata sc q 10)))))\<rparr>
     \<and> snd (buildContext h tr tw init sm sc st q b) =
         (Some schema, cacheResult h tw (snd (getResult h tr (snd st) q)) q ctx DEFAULT_TTL)"
proof -
  obtain c1 where g: "getResult h tr (snd st) q = (None, c1)"
    using miss by (cases "getResult h tr (snd st) q") simp
  show ?thesis
  proof (cases "case fst st of Some s \<Rightarrow> Inr s | None \<Rightarrow> init")
    case (Inl err)
    then show ?thesis using ret g by (simp add: buildContext_def)
  next
    case (Inr schema)
    then show ?thesis using ret g by (simp add: buildContext_def Let_def)
  qed
qed

lemma render_model_in_text:
  assumes "m \<in> set ms"
  shows "\<exists>pre post. buildContextText schema_opt ms cols rels = pre @ render_model m @ post"
proof -
  from assms obtain xs ys where ms: "ms = xs @ m # ys" by (meson split_list)
  have c: "concat (map render_model ms) = concat (map render_model xs) @ render_model m @ concat (map render_model ys)"
    by (simp add: ms)
  have pos: "length ms > 0" using assms by (cases ms) auto
  define tail where "tail = (let uniqueTables = Array_from_Set (map c_table cols) in
        if length uniqueTables > 0
        then ''### Relevant Schema Tables:'' @ NL @ NL
             @ concat (map (render_table schema_opt cols) uniqueTables)
        else [])
     @ (if length rels > 0
        then ''### Table Relationships:'' @ NL @ NL @ concat (map render_relationship rels) @ NL
        else [])"
  have "buildContextText schema_opt ms cols rels =
      (HEADER @ NL @ NL @ ''### Examples of Similar Queries:'' @ NL @ NL @ concat (map render_model xs))
      @ render_model m @ (concat (map render_model ys) @ tail)"
    unfolding buildContextText_def tail_def using pos c by simp
  then show ?thesis by blast
qed

text \<open>
  C1, as stated, fails: with budget 7 the header-only text (7 tokens) fits, and the context
  built for one retrieved pattern and one retrieved column is estimated at 67 tokens.
\<close>

theorem budget_counterexample:
  "estimateTokens (buildContextText (Some demo_schema) [] [] []) \<le> 7
   \<and> map_sum id token_estimate
        (fst (buildContext id 0 1 (Inl ''no index'') (\<lambda>q k. Inr demo_models) (\<lambda>q k. Inr demo_columns)
               (Some demo_schema, empty_cache) ''list all users'' 7)) = Inr 67"
  by (simp add: demo_eval)

text \<open>
  C1 amended. \<open>buildContext\<close> does not read its budget argument: any two budgets give the
  same result and state. On a cache miss nothing is dropped: the context holds every
  intent-filtered pattern and every retrieved column, its text is the full rendering of
  them (each pattern rendered whole), and the token estimate is the estimate of that text.
\<close>

theorem budget_is_ignored:
  "buildContext h tr tw init sm sc st q b1 = buildContext h tr tw init sm sc st q b2
   \<and> (fst (getResult h tr (snd st) q) = None \<longrightarrow>
       fst (buildContext h tr tw init sm sc st q b1) = Inr ctx \<longrightarrow>
         models ctx = filterModelsByIntent (retrieveSemanticModels sm q 5) (detectQueryIntent q)
         \<and> ctx_columns ctx = retrieveSchemaMetadata sc q 10
         \<and> context_text ctx =
             buildContextText (fst (snd (buildContext h tr tw init sm sc st q b1)))
               (models ctx) (ctx_columns ctx) (ctx_relationships ctx)
         \<and> token_estimate ctx = estimateTokens (context_text ctx)
         \<and> (\<forall>m\<in>set (models ctx). str_includes (context_text ctx) (render_model m)))"
proof -
  have indep: "buildContext h tr tw init sm sc st q b1 = buildContext h tr tw init sm sc st q b2"
    by (simp add: buildContext_def)
  have rest: "models ctx = filterModelsByIntent (retrieveSemanticModels sm q 5) (detectQueryIntent q)
         \<and> ctx_columns ctx = retrieveSchemaMetadata sc q 10
         \<and> context_text ctx =
             buildContextText (fst (snd (buildContext h tr tw init sm sc st q b1)))
               (models ctx) (ctx_columns ctx) (ctx_relationships ctx)
         \<and> token_estimate ctx = estimateTokens (context_text ctx)
         \<and> (\<forall>m\<in>set (models ctx). str_includes (context_text ctx) (render_model m))"
    if miss: "fst (getResult h tr (snd st) q) = None"
      and ret: "fst (buildContext h tr tw init sm sc st q b1) = Inr ctx"
  proof -
    from buildContext_miss[OF miss ret] obtain schema where
      ctx: "ctx = \<lparr>models = filterModelsByIntent (retrieveSemanticModels sm q 5) (detectQueryIntent q),
              ctx_columns = retrieveSchemaMetadata sc q 10,
              ctx_relationships =
                expandRelationships (Some schema) (Array_from_Set (map c_table (retrieveSchemaMetadata sc q 10))),
              tables_involved = Array_from_Set (map c_table (retrieveSchemaMetadata sc q 10)),
              context_text =
                buildContextText (Some schema)
                  (filterModelsByIntent (retrieveSemanticModels sm q 5) (detectQueryIntent q))
                  (retrieveSchemaMetadata sc q 10)
                  (expandRelationships (Some schema) (Array_from_Set (map c_table (retrieveSchemaMetadata sc q 10)))),
              token_estimate =
                estimateTokens (buildContextText (Some schema)
                  (filterModelsByIntent (retrieveSemanticModels sm q 5) (detectQueryIntent q))
                  (retrieveSchemaMetadata sc q 10)
                  (expandRelationships (Some schema) (Array_from_Set (map c_table (retrieveSchemaMetadata sc q 10)))))\<rparr>"
      and st': "snd (buildContext h tr tw init sm sc st q b1) =
         (Some schema, cacheResult h tw (snd (getResult h tr (snd st) q)) q ctx DEFAULT_TTL)"
      by blast
    have full: "\<forall>m\<in>set (models ctx). str_includes (context_text ctx) (render_model m)"
      using render_model_in_text by (simp add: ctx str_includes_iff)
    show ?thesis using full by (simp add: st') (simp add: ctx)
  qed
  show ?thesis using indep rest by blast
qed

text \<open>
  C1 amended, at budgets 7 and 600.
\<close>

theorem budget_is_ignored_witness:
  "buildContext id 0 1 (Inl ''no index'') (\<lambda>q k. Inr demo_models) (\<lambda>q k. Inr demo_columns)
       (Some demo_schema, empty_cache) ''list all users'' 7
   = buildContext id 0 1 (Inl ''no index'') (\<lambda>q k. Inr demo_models) (\<lambda>q k. Inr demo_columns)
       (Some demo_schema, empty_cache) ''list all users'' 600
   \<and> map m_name (models (projr (fst (buildContext id 0 1 (Inl ''no index'') (\<lambda>q k. Inr demo_models)
       (\<lambda>q k. Inr demo_columns) (Some demo_schema, empty_cache) ''list all users'' 7)))) = [''All users'']
   \<and> token_estimate (projr (fst (buildContext id 0 1 (Inl ''no index'') (\<lambda>q k. Inr demo_models)
       (\<lambda>q k. Inr demo_columns) (Some demo_schema, empty_cache) ''list all users'' 7))) = 67"
proof -
  let ?r = "buildContext id 0 1 (Inl ''no index'') (\<lambda>q k. Inr demo_models) (\<lambda>q k. Inr demo_columns)
       (Some demo_schema, empty_cache) ''list all users'' 7"
  have miss: "fst (getResult id 0 (snd (Some demo_schema, empty_cache)) ''list all users'') = None"
    by (simp add: getResult_def empty_cache_def)
  have ret: "fst ?r = Inr (projr (fst ?r))"
    by (simp add: buildContext_def getResult_def empty_cache_def Let_def)
  have names: "map m_name (models (projr (fst ?r))) = [''All users'']"
    by (simp add: demo_eval)
  have tok: "token_estimate (projr (fst ?r)) = 67"
    by (simp add: demo_eval)
  show ?thesis
    using budget_is_ignored[where ?b1.0 = 7 and ?b2.0 = 600 and h = id and tr = 0 and tw = 1
        and init = "Inl ''no index''" and sm = "\<lambda>q k. Inr demo_models" and sc = "\<lambda>q k. Inr demo_columns"
        and st = "(Some demo_schema, empty_cache)" and q = "''list all users''"
        and ctx = "projr (fst ?r)"] miss ret names tok
    by simp
qed

lemma filterModelsByIntent_UNKNOWN: "filterModelsByIntent ms UNKNOWN = ms"
  by (simp add: filterModelsByIntent_def)

lemma filterModelsByIntent_known:
  "intent \<noteq> UNKNOWN \<Longrightarrow>
   filterModelsByIntent ms intent =
     filter (\<lambda>m. \<exists>op\<in>set (intentOperations intent). str_includes (toUpperCase (m_sql m)) op) ms"
  by (cases intent) (simp_all add: filterModelsByIntent_def list_ex_iff)

lemma retrieveSemanticModels_length:
  "sm q k = Inr pts \<Longrightarrow> length (retrieveSemanticModels sm q k) = length pts"
  by (simp add: retrieveSemanticModels_def)

text \<open>
  C2, as stated, fails: for "how many users" (intent COUNT) the search returns one pattern,
  whose SQL has no COUNT, and the returned models list is empty.
\<close>

theorem intent_filter_counterexample:
  "length (retrieveSemanticModels (\<lambda>q k. Inr demo_models) ''how many users'' 5) = 1
   \<and> map_sum id models
        (fst (buildContext id 0 1 (Inl ''no index'') (\<lambda>q k. Inr demo_models) (\<lambda>q k. Inr demo_columns)
               (Some demo_schema, empty_cache) ''how many users'' 600)) = Inr []"
  by (simp add: demo_eval)

text \<open>
  C2 amended. On a cache miss: the retrieved list is as long as the search result; when the
  intent is UNKNOWN it is kept whole; for any other intent exactly the patterns whose
  upper-cased SQL contains one of the intent's operations are kept, so the models list is
  non-empty only if some retrieved pattern contains one (there is no fall-back to the full
  list).
\<close>

theorem intent_filter_result:
  assumes miss: "fst (getResult h tr (snd st) q) = None"
    and ret: "fst (buildContext h tr tw init sm sc st q b) = Inr ctx"
  shows "(\<forall>pts. sm q 5 = Inr pts \<longrightarrow> length (retrieveSemanticModels sm q 5) = length pts)
    \<and> (detectQueryIntent q = UNKNOWN \<longrightarrow> models ctx = retrieveSemanticModels sm q 5)
    \<and> (detectQueryIntent q \<noteq> UNKNOWN \<longrightarrow>
         models ctx =
           filter (\<lambda>m. \<exists>op\<in>set (intentOperations (detectQueryIntent q)).
                          str_includes (toUpperCase (m_sql m)) op)
                  (retrieveSemanticModels sm q 5))
    \<and> (models ctx \<noteq> [] \<longleftrightarrow>
         (\<exists>m\<in>set (retrieveSemanticModels sm q 5).
            detectQueryIntent q = UNKNOWN
            \<or> (\<exists>op\<in>set (intentOperations (detectQueryIntent q)).
                  str_includes (toUpperCase (m_sql m)) op)))"
proof -
  have m: "models ctx = filterModelsByIntent (retrieveSemanticModels sm q 5) (detectQueryIntent q)"
    using buildContext_miss[OF miss ret] by auto
  have len: "\<forall>pts. sm q 5 = Inr pts \<longrightarrow> length (retrieveSemanticModels sm q 5) = length pts"
    using retrieveSemanticModels_length by blast
  show ?thesis
  proof (cases "detectQueryIntent q = UNKNOWN")
    case True
    have "models ctx = retrieveSemanticModels sm q 5"
      using m True by (simp add: filterModelsByIntent_UNKNOWN)
    moreover have "retrieveSemanticModels sm q 5 \<noteq> [] \<longleftrightarrow>
        (\<exists>m\<in>set (retrieveSemanticModels sm q 5). True)"
      by (cases "retrieveSemanticModels sm q 5") auto
    ultimately show ?thesis using True len by simp
  next
    case False
    have f: "models ctx =
           filter (\<lambda>m. \<exists>op\<in>set (intentOperations (detectQueryIntent q)).
                          str_includes (toUpperCase (m_sql m)) op)
                  (retrieveSemanticModels sm q 5)"
      using m filterModelsByIntent_known[OF False] by simp
    have "models ctx \<noteq> [] \<longleftrightarrow>
         (\<exists>m\<in>set (retrieveSemanticModels sm q 5).
            \<exists>op\<in>set (intentOperations (detectQueryIntent q)).
                  str_includes (toUpperCase (m_sql m)) op)"
      unfolding f by (simp add: filter_empty_conv)
    then show ?thesis using False f len by simp
  qed
qed

text \<open>
  C2 amended, at the query "how many users".
\<close>

theorem intent_filter_result_witness:
  "detectQueryIntent ''how many users'' = COUNT
   \<and> models (projr (fst (buildContext id 0 1 (Inl ''no index'') (\<lambda>q k. Inr demo_models)
        (\<lambda>q k. Inr demo_columns) (Some demo_schema, empty_cache) ''how many users'' 600))) = []
   \<and> \<not> (\<exists>m\<in>set (retrieveSemanticModels (\<lambda>q k. Inr demo_models) ''how many users'' 5).
            detectQueryIntent ''how many users'' = UNKNOWN
            \<or> (\<exists>op\<in>set (intentOperations (detectQueryIntent ''how many users'')).
                  str_includes (toUpperCase (m_sql m)) op))"
proof -
  let ?r = "buildContext id 0 1 (Inl ''no index'') (\<lambda>q k. Inr demo_models) (\<lambda>q k. Inr demo_columns)
       (Some demo_schema, empty_cache) ''how many users'' 600"
  have miss: "fst (getResult id 0 (snd (Some demo_schema, empty_cache)) ''how many users'') = None"
    by (simp add: getResult_def empty_cache_def)
  have ret: "fst ?r = Inr (projr (fst ?r))"
    by (simp add: buildContext_def getResult_def empty_cache_def Let_def)
  have intent: "detectQueryIntent ''how many users'' = COUNT"
    by (simp add: detectQueryIntent_def toLowerCase_def toLowerChar_def lower_upper_def)
  have empty: "models (projr (fst ?r)) = []"
    by (simp add: demo_eval)
  show ?thesis
    using intent_filter_result[OF miss ret] intent empty by simp
qed




section \<open>Regular expressions\<close>

text \<open>
  The validator reads SQL with JavaScript regular expressions. They are modelled as data
  (\<open>re\<close>) and run by a backtracking matcher in continuation style, which tries the
  alternatives in the order the ECMAScript semantics gives them: the left branch of \<open>|\<close>
  first, one more iteration first for the greedy \<open>*\<close>, \<open>+\<close> and \<open>?\<close>, the continuation
  first for the lazy \<open>+?\<close>; an iteration that consumes nothing is rejected. The state
  holds the character before the current position (for \<open>\b\<close>), the rest of the input and
  the captures. \<open>\w\<close> is \<open>[A-Za-z0-9_]\<close>, \<open>\s\<close> the white space and line terminators
  below 256, \<open>.\<close> anything but a line terminator; with the flag \<open>i\<close> a literal letter
  matches both of its cases. No expression of the validator has a capture group inside a
  repetition.
\<close>

datatype cls = WordC | SpaceC | AnyC | NoneOf string

datatype re =
    Chr char
  | Class cls
  | Eps
  | Seq re re
  | Alt re re
  | Star re
  | Plus re
  | LazyPlus re
  | Opt re
  | Group nat re
  | Eol
  | WordB
  | NegLook re

definition is_word_char :: "char \<Rightarrow> bool" where
  "is_word_char c = (c \<in> set ''abcdefghijklmnopqrstuvwxyzABCDEFGHIJKLMNOPQRSTUVWXYZ0123456789_'')"

definition is_space_char :: "char \<Rightarrow> bool" where
  "is_space_char c = (c \<in> set [CHR 0x09, CHR 0x0A, CHR 0x0B, CHR 0x0C, CHR 0x0D, CHR 0x20, CHR 0xA0])"

definition is_line_terminator :: "char \<Rightarrow> bool" where
  "is_line_terminator c = (c = CHR 0x0A \<or> c = CHR 0x0D)"

fun in_class :: "cls \<Rightarrow> char \<Rightarrow> bool" where
  "in_class WordC c = is_word_char c"
| "in_class SpaceC c = is_space_char c"
| "in_class AnyC c = (\<not> is_line_terminator c)"
| "in_class (NoneOf cs) c = (c \<notin> set cs)"

definition char_matches :: "bool \<Rightarrow> char \<Rightarrow> char \<Rightarrow> bool" where
  "char_matches ignoreCase c x = (if ignoreCase then toUpperChar c = toUpperChar x else c = x)"

record mstate =
  prev_char :: "char option"
  rest :: string
  caps :: "(nat \<times> string) list"

definition advance :: "mstate \<Rightarrow> mstate" where
  "advance s = (case rest s of [] \<Rightarrow> s | x # xs \<Rightarrow> s\<lparr>prev_char := Some x, rest := xs\<rparr>)"

definition consumed :: "mstate \<Rightarrow> mstate \<Rightarrow> string" where
  "consumed s s' = take (length (rest s) - length (rest s')) (rest s)"

definition word_at :: "char option \<Rightarrow> bool" where
  "word_at c = (case c of None \<Rightarrow> False | Some x \<Rightarrow> is_word_char x)"

definition next_char :: "mstate \<Rightarrow> char option" where
  "next_char s = (case rest s of [] \<Rightarrow> None | x # xs \<Rightarrow> Some x)"

primrec rstar :: "nat \<Rightarrow> ((mstate \<Rightarrow> mstate option) \<Rightarrow> mstate \<Rightarrow> mstate option)
                  \<Rightarrow> (mstate \<Rightarrow> mstate option) \<Rightarrow> mstate \<Rightarrow> mstate option" where
  "rstar 0 f k s = k s"
| "rstar (Suc n) f k s =
     (case f (\<lambda>s'. if length (rest s') < length (rest s) then rstar n f k s' else None) s of
        Some r \<Rightarrow> Some r
      | None \<Rightarrow> k s)"

primrec lazy_star :: "nat \<Rightarrow> ((mstate \<Rightarrow> mstate option) \<Rightarrow> mstate \<Rightarrow> mstate option)
                  \<Rightarrow> (mstate \<Rightarrow> mstate option) \<Rightarrow> mstate \<Rightarrow> mstate option" where
  "lazy_star 0 f k s = k s"
| "lazy_star (Suc n) f k s =
     (case k s of
        Some r \<Rightarrow> Some r
      | None \<Rightarrow> f (\<lambda>s'. if length (rest s') < length (rest s) then lazy_star n f k s' else None) s)"

primrec rmatch :: "bool \<Rightarrow> re \<Rightarrow> (mstate \<Rightarrow> mstate option) \<Rightarrow> mstate \<Rightarrow> mstate option" where
  "rmatch ic (Chr c) = (\<lambda>k s. case rest s of [] \<Rightarrow> None
                          | x # xs \<Rightarrow> if char_matches ic c x then k (advance s) else None)"
| "rmatch ic (Class cl) = (\<lambda>k s. case rest s of [] \<Rightarrow> None
                          | x # xs \<Rightarrow> if in_class cl x then k (advance s) else None)"
| "rmatch ic Eps = (\<lambda>k s. k s)"
| "rmatch ic (Seq a b) = (\<lambda>k s. rmatch ic a (rmatch ic b k) s)"
| "rmatch ic (Alt a b) = (\<lambda>k s. case rmatch ic a k s of Some r \<Rightarrow> Some r | None \<Rightarrow> rmatch ic b k s)"
| "rmatch ic (Star a) = (\<lambda>k s. rstar (length (rest s)) (rmatch ic a) k s)"
| "rmatch ic (Plus a) = (\<lambda>k s. rmatch ic a (\<lambda>s'. rstar (length (rest s')) (rmatch ic a) k s') s)"
| "rmatch ic (LazyPlus a) = (\<lambda>k s. rmatch ic a (\<lambda>s'. lazy_star (length (rest s')) (rmatch ic a) k s') s)"
| "rmatch ic (Opt a) = (\<lambda>k s. rstar (Suc 0) (rmatch ic a) k s)"
| "rmatch ic (Group n a) = (\<lambda>k s. rmatch ic a (\<lambda>s'. k (s'\<lparr>caps := AList.update n (consumed s s') (caps s')\<rparr>)) s)"
| "rmatch ic Eol = (\<lambda>k s. if rest s = [] then k s else None)"
| "rmatch ic WordB = (\<lambda>k s. if word_at (prev_char s) \<noteq> word_at (next_char s) then k s else None)"
| "rmatch ic (NegLook a) = (\<lambda>k s. case rmatch ic a Some s of None \<Rightarrow> k s | Some r \<Rightarrow> None)"

fun lit :: "string \<Rightarrow> re" where
  "lit [] = Eps"
| "lit (c # cs) = Seq (Chr c) (lit cs)"

text \<open>
  \<open>regex_search\<close> is one \<open>exec\<close>: the leftmost start position, from the given position
  on, at which the expression matches. \<open>exec_all\<close> is the loop
  \<open>while ((match = re.exec(sql)) !== null)\<close> over a global expression: each search
  starts where the last match ended; a match that ends where its search started would be
  found again forever, which is the result \<open>None\<close>.
\<close>

fun regex_search :: "bool \<Rightarrow> re \<Rightarrow> char option \<Rightarrow> string \<Rightarrow> mstate option" where
  "regex_search ic r prev [] = rmatch ic r Some \<lparr>prev_char = prev, rest = [], caps = []\<rparr>"
| "regex_search ic r prev (c # cs) =
     (case rmatch ic r Some \<lparr>prev_char = prev, rest = c # cs, caps = []\<rparr> of
        Some fin \<Rightarrow> Some fin
      | None \<Rightarrow> regex_search ic r (Some c) cs)"

definition regex_test :: "bool \<Rightarrow> re \<Rightarrow> string \<Rightarrow> bool" where
  "regex_test ic r str = (regex_search ic r None str \<noteq> None)"

definition cap :: "mstate \<Rightarrow> nat \<Rightarrow> string option" where
  "cap fin n = map_of (caps fin) n"

function exec_all :: "bool \<Rightarrow> re \<Rightarrow> char option \<Rightarrow> string \<Rightarrow> mstate list option" where
  "exec_all ic r prev str =
     (case regex_search ic r prev str of
        None \<Rightarrow> Some []
      | Some fin \<Rightarrow>
          if length (rest fin) < length str
          then map_option (\<lambda>ms. fin # ms) (exec_all ic r (prev_char fin) (rest fin))
          else None)"
  by pat_completeness auto
termination
  by (relation "measure (\<lambda>(ic, r, prev, str). length str)") auto

declare exec_all.simps [simp del]

text \<open>
  \<open>String.prototype.split\<close> with a regular expression without capture groups: the
  expression is tried at each position \<open>q\<close> of the string in turn; a match that ends at the
  start \<open>p\<close> of the current piece is skipped, any other match closes the piece and the next
  one starts where the match ended. \<open>piece\<close> holds the current piece, reversed.
\<close>

function split_from :: "bool \<Rightarrow> re \<Rightarrow> char option \<Rightarrow> string \<Rightarrow> string \<Rightarrow> string list" where
  "split_from ic r prev piece [] = [rev piece]"
| "split_from ic r prev piece (c # cs) =
     (case rmatch ic r Some \<lparr>prev_char = prev, rest = c # cs, caps = []\<rparr> of
        None \<Rightarrow> split_from ic r (Some c) (c # piece) cs
      | Some fin \<Rightarrow>
          if length (rest fin) < length (c # cs)
          then rev piece # split_from ic r (prev_char fin) [] (rest fin)
          else if piece = [] then split_from ic r (Some c) [c] cs
          else rev piece # split_from ic r (Some c) [c] cs)"
  by pat_completeness auto
termination
  by (relation "measure (\<lambda>(ic, r, prev, piece, str). length str)") auto

declare split_from.simps [simp del]

definition split_re :: "bool \<Rightarrow> re \<Rightarrow> string \<Rightarrow> string list" where
  "split_re ic r str =
     (if str = [] then (if rmatch ic r Some \<lparr>prev_char = None, rest = [], caps = []\<rparr> = None then [[]] else [])
      else split_from ic r None [] str)"

definition trim :: "string \<Rightarrow> string" where
  "trim s = rev (dropWhile is_space_char (rev (dropWhile is_space_char s)))"

section \<open>SQL validator (query-validator.ts)\<close>

record ValidationResult =
  valid :: bool
  errors :: "string list"
  warnings :: "string list"
  suggestions :: "string list"

record TableReference =
  tr_name :: string
  tr_alias :: "string option"

record ColumnReference =
  cr_table :: string
  cr_column :: string
  cr_aggregationFunction :: "string option"

definition group :: "mstate \<Rightarrow> nat \<Rightarrow> string" where
  \<comment> \<open>\<open>match[n]\<close> of a group that took part in the match\<close>
  "group fin n = (case cap fin n of Some g \<Rightarrow> g | None \<Rightarrow> [])"

definition space_plus :: re where "space_plus = Plus (Class SpaceC)"
definition space_star :: re where "space_star = Star (Class SpaceC)"
definition word_plus :: re where "word_plus = Plus (Class WordC)"

definition fromRegex :: re where
  \<comment> \<open>\<open>/FROM\s+(\w+)\s*(?:AS\s+(\w+))?/gi\<close>\<close>
  "fromRegex =
     Seq (lit ''FROM'') (Seq space_plus (Seq (Group 1 word_plus) (Seq space_star
       (Opt (Seq (lit ''AS'') (Seq space_plus (Group 2 word_plus)))))))"

definition joinRegex :: re where
  \<comment> \<open>\<open>/JOIN\s+(\w+)\s*(?:AS\s+(\w+))?/gi\<close>\<close>
  "joinRegex =
     Seq (lit ''JOIN'') (Seq space_plus (Seq (Group 1 word_plus) (Seq space_star
       (Opt (Seq (lit ''AS'') (Seq space_plus (Group 2 word_plus)))))))"

definition intoRegex :: re where
  \<comment> \<open>\<open>/INTO\s+(\w+)/gi\<close>\<close>
  "intoRegex = Seq (lit ''INTO'') (Seq space_plus (Group 1 word_plus))"

definition extractTableReferences :: "string \<Rightarrow> TableReference list option" where
  "extractTableReferences sql =
     (case exec_all True fromRegex None sql of
        None \<Rightarrow> None
      | Some fs \<Rightarrow>
          (case exec_all True joinRegex None sql of
             None \<Rightarrow> None
           | Some js \<Rightarrow>
               (case exec_all True intoRegex None sql of
                  None \<Rightarrow> None
                | Some ins \<Rightarrow>
                    Some (map (\<lambda>match. \<lparr>tr_name = group match 1, tr_alias = cap match 2\<rparr>) fs
                          @ map (\<lambda>match. \<lparr>tr_name = group match 1, tr_alias = cap match 2\<rparr>) js
                          @ map (\<lambda>match. \<lparr>tr_name = group match 1, tr_alias = None\<rparr>) ins))))"

definition selectRegex :: re where
  \<comment> \<open>\<open>/SELECT\s+(.+?)(?:\s+FROM|\s*$)/i\<close>\<close>
  "selectRegex =
     Seq (lit ''SELECT'') (Seq space_plus (Seq (Group 1 (LazyPlus (Class AnyC)))
       (Alt (Seq space_plus (lit ''FROM'')) (Seq space_star Eol))))"

definition commaRegex :: re where
  \<comment> \<open>\<open>/,(?![^()]*\))/\<close>\<close>
  "commaRegex = Seq (Chr CHR '','') (NegLook (Seq (Star (Class (NoneOf ''()''))) (Chr CHR '')'')))"

definition aggRegex :: re where
  \<comment> \<open>\<open>/(COUNT|SUM|AVG|MIN|MAX)\s*\(\s*(?:(\w+)\.)?(\w+|\*)\s*\)/i\<close>\<close>
  "aggRegex =
     Seq (Group 1 (Alt (lit ''COUNT'') (Alt (lit ''SUM'') (Alt (lit ''AVG'') (Alt (lit ''MIN'') (lit ''MAX''))))))
       (Seq space_star (Seq (Chr CHR ''('') (Seq space_star
         (Seq (Opt (Seq (Group 2 word_plus) (Chr CHR ''.'')))
           (Seq (Group 3 (Alt word_plus (Chr CHR ''*''))) (Seq space_star (Chr CHR '')'')))))))"

definition colRegex :: re where
  \<comment> \<open>\<open>/(?:(\w+)\.)?(\w+)/\<close>\<close>
  "colRegex = Seq (Opt (Seq (Group 1 word_plus) (Chr CHR ''.''))) (Group 2 word_plus)"

definition column_of_part :: "string \<Rightarrow> ColumnReference list" where
  "column_of_part part =
     (let trimmed = trim part in
      case regex_search True aggRegex None trimmed of
        Some aggMatch \<Rightarrow>
          [\<lparr>cr_table = or_else (cap aggMatch 2) [], cr_column = group aggMatch 3,
            cr_aggregationFunction = Some (toUpperCase (group aggMatch 1))\<rparr>]
      | None \<Rightarrow>
          (case regex_search False colRegex None trimmed of
             Some colMatch \<Rightarrow>
               (let table = or_else (cap colMatch 1) []; column = group colMatch 2 in
                if column \<noteq> [] \<and> column \<noteq> ''*''
                then [\<lparr>cr_table = table, cr_column = column, cr_aggregationFunction = None\<rparr>]
                else [])
           | None \<Rightarrow> []))"

definition extractColumnReferences :: "string \<Rightarrow> ColumnReference list" where
  "extractColumnReferences sql =
     (case regex_search True selectRegex None sql of
        None \<Rightarrow> []
      | Some selectMatch \<Rightarrow>
          concat (map column_of_part (split_re False commaRegex (group selectMatch 1))))"

definition table_missing_message :: "FullSchema \<Rightarrow> string \<Rightarrow> string" where
  "table_missing_message schema tableName =
     ''Table '' @ SQ @ tableName @ SQ @ '' does not exist. Available tables: ''
     @ join '', '' (Object_keys schema)"

definition validateTableExists :: "string \<Rightarrow> FullSchema \<Rightarrow> string list \<Rightarrow> bool \<times> string list" where
  "validateTableExists tableName schema errs =
     (if schema_lookup schema tableName = None
      then (False, errs @ [table_missing_message schema tableName])
      else (True, errs))"

definition column_lookup :: "TableSchema \<Rightarrow> string \<Rightarrow> ColumnInfo option" where
  "column_lookup tableSchema columnName = map_of (columns tableSchema) columnName"

definition column_missing_message :: "string \<Rightarrow> string \<Rightarrow> TableSchema \<Rightarrow> string" where
  "column_missing_message tableName columnName tableSchema =
     ''Column '' @ SQ @ columnName @ SQ @ '' does not exist in table '' @ SQ @ tableName @ SQ
     @ ''. Available columns: '' @ join '', '' (Object_keys (columns tableSchema))"

definition validateColumnExists :: "string \<Rightarrow> string \<Rightarrow> TableSchema \<Rightarrow> string list \<Rightarrow> bool \<times> string list" where
  "validateColumnExists tableName columnName tableSchema errs =
     (if columnName = ''*'' then (True, errs)
      else if column_lookup tableSchema columnName = None
      then (False, errs @ [column_missing_message tableName columnName tableSchema])
      else (True, errs))"

definition star_message :: "string \<Rightarrow> string" where
  "star_message aggFn = ''Cannot use '' @ aggFn @ '' on *. Only COUNT(*) is allowed.''"

definition text_message :: "string \<Rightarrow> string \<Rightarrow> string \<Rightarrow> string" where
  "text_message aggFn tableName columnName =
     ''Cannot use '' @ aggFn @ '' on text column '' @ SQ @ tableName @ ''.'' @ columnName @ SQ
     @ ''. Use COUNT or DISTINCT instead.''"

definition date_message :: "string \<Rightarrow> string \<Rightarrow> string \<Rightarrow> string" where
  "date_message aggFn tableName columnName =
     ''Cannot use '' @ aggFn @ '' on date column '' @ SQ @ tableName @ ''.'' @ columnName @ SQ
     @ ''. Use MIN, MAX, or COUNT instead.''"

definition uuid_message :: "string \<Rightarrow> string \<Rightarrow> string \<Rightarrow> string" where
  "uuid_message aggFn tableName columnName =
     ''Cannot use '' @ aggFn @ '' on UUID column '' @ SQ @ tableName @ ''.'' @ columnName @ SQ
     @ ''. Use COUNT or DISTINCT instead.''"

definition not_aggregatable_message :: "string \<Rightarrow> string \<Rightarrow> string" where
  "not_aggregatable_message tableName columnName =
     ''Column '' @ SQ @ tableName @ ''.'' @ columnName @ SQ
     @ '' is not typically aggregatable. Verify this is intentional.''"

definition validateAggregation ::
  "string \<Rightarrow> string \<Rightarrow> string \<Rightarrow> TableSchema \<Rightarrow> string list \<times> string list \<Rightarrow> string list \<times> string list" where
  "validateAggregation tableName columnName aggregationFunction tableSchema ew =
     (if columnName = ''*''
      then (if aggregationFunction \<noteq> ''COUNT''
            then (fst ew @ [star_message aggregationFunction], snd ew)
            else ew)
      else
        (case column_lookup tableSchema columnName of
           None \<Rightarrow> ew
         | Some column \<Rightarrow>
             (let e1 = (if col_type column = ''text'' \<and> aggregationFunction \<notin> set [''COUNT'', ''DISTINCT'']
                        then fst ew @ [text_message aggregationFunction tableName columnName]
                        else fst ew);
                  e2 = (if col_type column = ''date'' \<and> aggregationFunction \<notin> set [''MIN'', ''MAX'', ''COUNT'']
                        then e1 @ [date_message aggregationFunction tableName columnName]
                        else e1);
                  e3 = (if col_type column = ''uuid'' \<and> aggregationFunction \<noteq> ''COUNT''
                           \<and> aggregationFunction \<noteq> ''DISTINCT''
                        then e2 @ [uuid_message aggregationFunction tableName columnName]
                        else e2);
                  w = (if aggregatable column = Some ''false'' \<and> aggregationFunction \<noteq> ''COUNT''
                          \<and> aggregationFunction \<noteq> ''DISTINCT''
                       then snd ew @ [not_aggregatable_message tableName columnName]
                       else snd ew)
              in (e3, w))))"

definition dangerousKeywords :: "string list" where
  "dangerousKeywords = [''DELETE'', ''DROP'', ''TRUNCATE'', ''ALTER'', ''GRANT'', ''REVOKE'']"

definition keywordRegex :: "string \<Rightarrow> re" where
  \<comment> \<open>\<open>new RegExp(`\\b${keyword}\\b`, "i")\<close>\<close>
  "keywordRegex keyword = Seq WordB (Seq (lit keyword) WordB)"

definition dangerous_message :: "string \<Rightarrow> string" where
  "dangerous_message keyword =
     ''Dangerous operation detected: '' @ keyword @ ''. Only SELECT queries are allowed.''"

definition validateSafety :: "string \<Rightarrow> string list \<Rightarrow> string list" where
  "validateSafety sql errs =
     fold (\<lambda>keyword es. if regex_test True (keywordRegex keyword) sql
                          then es @ [dangerous_message keyword] else es)
          dangerousKeywords errs"

definition schemaRegex :: re where
  \<comment> \<open>\<open>/\b(\w+)\.\w+/g\<close>\<close>
  "schemaRegex = Seq WordB (Seq (Group 1 word_plus) (Seq (Chr CHR ''.'') word_plus))"

definition detectHallucinations :: "string \<Rightarrow> FullSchema \<Rightarrow> string list \<Rightarrow> string list option" where
  "detectHallucinations sql schema sugg =
     (case exec_all False schemaRegex None sql of
        None \<Rightarrow> None
      | Some matches \<Rightarrow>
          (let s1 = fold (\<lambda>match ss.
                      (let possibleSchema = group match 1 in
                       if possibleSchema \<noteq> ''public'' \<and> schema_lookup schema possibleSchema = None
                       then ss @ [''Verify that '' @ SQ @ possibleSchema @ SQ
                                  @ '' is a valid table alias or fully qualified name.'']
                       else ss)) matches sugg;
               s2 = (if regex_test True (Seq (lit ''FORM'') WordB) sql
                     then s1 @ [''Did you mean '' @ SQ @ ''FROM'' @ SQ @ '' instead of '' @ SQ @ ''FORM'' @ SQ @ ''?'']
                     else s1);
               s3 = (if regex_test True (Seq (lit ''SELECTE'') WordB) sql
                     then s2 @ [''Did you mean '' @ SQ @ ''SELECT'' @ SQ @ '' instead of '' @ SQ @ ''SELECTE'' @ SQ @ ''?'']
                     else s2);
               s4 = (if regex_test True (Seq (lit ''WHER'') WordB) sql
                     then s3 @ [''Did you mean '' @ SQ @ ''WHERE'' @ SQ @ '' instead of '' @ SQ @ ''WHER'' @ SQ @ ''?'']
                     else s3)
           in Some s4))"

definition validate_column ::
  "FullSchema \<Rightarrow> nat \<Rightarrow> TableReference \<Rightarrow> ColumnReference \<Rightarrow> string list \<times> string list
     \<Rightarrow> string list \<times> string list" where
  "validate_column schema nTables tableRef colRef ew =
     (if cr_table colRef = [] \<and> nTables > 1 then ew
      else
        (let targetTable = (if cr_table colRef \<noteq> [] then cr_table colRef else tr_name tableRef) in
         case schema_lookup schema targetTable of
           None \<Rightarrow> ew
         | Some targetSchema \<Rightarrow>
             (let e1 = snd (validateColumnExists targetTable (cr_column colRef) targetSchema (fst ew)) in
              case cr_aggregationFunction colRef of
                None \<Rightarrow> (e1, snd ew)
              | Some f \<Rightarrow>
                  if f \<noteq> []
                  then validateAggregation targetTable (cr_column colRef) f targetSchema (e1, snd ew)
                  else (e1, snd ew))))"

definition validate_table ::
  "FullSchema \<Rightarrow> string \<Rightarrow> nat \<Rightarrow> TableReference \<Rightarrow> string list \<times> string list
     \<Rightarrow> string list \<times> string list" where
  "validate_table schema sql nTables tableRef ew =
     (let (ok, e1) = (if tr_name tableRef \<noteq> []
                      then validateTableExists (tr_name tableRef) schema (fst ew)
                      else (True, fst ew)) in
      if \<not> ok then (e1, snd ew)
      else
        (case schema_lookup schema (tr_name tableRef) of
           None \<Rightarrow> (e1, snd ew)
         | Some tableSchema \<Rightarrow>
             fold (validate_column schema nTables tableRef) (extractColumnReferences sql) (e1, snd ew)))"

definition no_tables_message :: string where
  "no_tables_message = ''No tables found in query. Did you forget a FROM clause?''"

definition validateQuery :: "FullSchema \<Rightarrow> string \<Rightarrow> ValidationResult option" where
  "validateQuery schema sql =
     (let e0 = validateSafety sql [] in
      case extractTableReferences sql of
        None \<Rightarrow> None
      | Some tableReferences \<Rightarrow>
          (let e1 = (if length tableReferences = 0
                     then e0 @ [no_tables_message]
                     else e0);
               ew = fold (validate_table schema sql (length tableReferences)) tableReferences (e1, [])
           in case detectHallucinations sql schema [] of
                None \<Rightarrow> None
              | Some sugg \<Rightarrow>
                  (let e2 = (if \<not> str_includes sql ''SELECT'' \<and> \<not> str_includes sql ''select''
                             then fst ew @ [''Query must include a SELECT clause'']
                             else fst ew)
                   in Some \<lparr>valid = (length e2 = 0), errors = e2, warnings = snd ew,
                             suggestions = sugg\<rparr>)))"

section \<open>The finance registry\<close>

text \<open>
  The registry of \<open>loadSchemaRegistry\<close>: the literal \<open>mockData\<close>, stored table by table
  under its name. Every column of the literal has a type and a description, some have an
  \<open>aggregatable\<close> tag, none has \<open>values\<close> or \<open>unit\<close>.
\<close>

definition col :: "string \<Rightarrow> string \<Rightarrow> string option \<Rightarrow> ColumnInfo" where
  "col ty desc agg =
     \<lparr>col_type = ty, col_description = Some desc, col_values = None, col_unit = None,
      aggregatable = agg\<rparr>"

definition mockData :: "TableSchema list" where
  "mockData =
    [     \<lparr>table_name = ''users'',
      description = ''User profiles and authentication data'',
      columns =
        [(''id'', col ''uuid'' ''Primary key'' None),
         (''email'', col ''text'' ''User email address'' (Some ''false'')),
         (''name'', col ''text'' ''User full name'' (Some ''false'')),
         (''phone'', col ''text'' ''User phone number'' (Some ''false'')),
         (''country'', col ''text'' ''User country'' (Some ''false'')),
         (''role'', col ''varchar'' ''User role'' (Some ''false'')),
         (''created_at'', col ''timestamp'' ''Account creation timestamp'' None),
         (''updated_at'', col ''timestamp'' ''Last update timestamp'' None)],
      relationships =
        [\<lparr>rel_table = ''accounts'', join_key = ''id:user_id''\<rparr>,
         \<lparr>rel_table = ''budgets'', join_key = ''id:user_id''\<rparr>,
         \<lparr>rel_table = ''financial_goals'', join_key = ''id:user_id''\<rparr>,
         \<lparr>rel_table = ''expense_categories'', join_key = ''id:user_id''\<rparr>],
      sensitive_fields = [''id'', ''email'', ''phone'']\<rparr>,
     \<lparr>table_name = ''accounts'',
      description = ''Bank and investment accounts'',
      columns =
        [(''id'', col ''uuid'' ''Primary key'' None),
         (''user_id'', col ''uuid'' ''Reference to user'' None),
         (''account_type'', col ''text'' ''Type of account (checking, savings, investment)'' (Some ''false'')),
         (''account_name'', col ''text'' ''Name of the account'' (Some ''false'')),
         (''balance'', col ''numeric'' ''Current account balance'' (Some ''SUM,AVG,MAX,MIN'')),
         (''currency'', col ''text'' ''Currency code (USD, EUR, etc)'' (Some ''false'')),
         (''account_number'', col ''text'' ''Account number'' (Some ''false'')),
         (''institution_name'', col ''text'' ''Name of financial institution'' (Some ''false'')),
         (''created_at'', col ''timestamp'' ''Account creation timestamp'' None),
         (''updated_at'', col ''timestamp'' ''Last update timestamp'' None)],
      relationships =
        [\<lparr>rel_table = ''users'', join_key = ''user_id:id''\<rparr>,
         \<lparr>rel_table = ''transactions'', join_key = ''id:account_id''\<rparr>,
         \<lparr>rel_table = ''portfolio_holdings'', join_key = ''id:account_id''\<rparr>,
         \<lparr>rel_table = ''dividends'', join_key = ''id:account_id''\<rparr>],
      sensitive_fields = [''id'', ''user_id'', ''account_number'']\<rparr>,
     \<lparr>table_name = ''transactions'',
      description = ''Financial transactions including purchases, sales, and transfers'',
      columns =
        [(''id'', col ''uuid'' ''Primary key'' None),
         (''account_id'', col ''uuid'' ''Reference to account'' None),
         (''security_id'', col ''uuid'' ''Reference to security if investment transaction'' None),
         (''transaction_type'', col ''text'' ''Type of transaction (buy, sell, transfer, deposit, withdrawal)'' (Some ''false'')),
         (''amount'', col ''numeric'' ''Transaction amount'' (Some ''SUM,AVG,MAX,MIN'')),
         (''quantity'', col ''numeric'' ''Quantity for securities transactions'' (Some ''SUM'')),
         (''price_per_unit'', col ''numeric'' ''Price per unit for securities'' (Some ''AVG'')),
         (''transaction_date'', col ''date'' ''Date of transaction'' None),
         (''description'', col ''text'' ''Transaction description'' (Some ''false'')),
         (''category'', col ''text'' ''Transaction category'' (Some ''false'')),
         (''merchant'', col ''text'' ''Merchant name if applicable'' (Some ''false'')),
         (''status'', col ''text'' ''Transaction status (pending, completed, failed)'' (Some ''false'')),
         (''created_at'', col ''timestamp'' ''Record creation timestamp'' None)],
      relationships =
        [\<lparr>rel_table = ''accounts'', join_key = ''account_id:id''\<rparr>,
         \<lparr>rel_table = ''securities'', join_key = ''security_id:id''\<rparr>],
      sensitive_fields = [''id'', ''account_id'']\<rparr>,
     \<lparr>table_name = ''securities'',
      description = ''Stocks, bonds, mutual funds, and other investment securities'',
      columns =
        [(''id'', col ''uuid'' ''Primary key'' None),
         (''ticker'', col ''text'' ''Security ticker symbol'' (Some ''false'')),
         (''name'', col ''text'' ''Security name'' (Some ''false'')),
         (''security_type'', col ''text'' ''Type of security (stock, bond, etf, mutual fund)'' (Some ''false'')),
         (''sector'', col ''text'' ''Industry sector'' (Some ''false'')),
         (''industry'', col ''text'' ''Industry classification'' (Some ''false'')),
         (''market_cap'', col ''numeric'' ''Market capitalization'' (Some ''SUM,AVG,MAX,MIN'')),
         (''description'', col ''text'' ''Security description'' (Some ''false'')),
         (''created_at'', col ''timestamp'' ''Record creation timestamp'' None)],
      relationships =
        [\<lparr>rel_table = ''portfolio_holdings'', join_key = ''id:security_id''\<rparr>,
         \<lparr>rel_table = ''transactions'', join_key = ''id:security_id''\<rparr>,
         \<lparr>rel_table = ''price_history'', join_key = ''id:security_id''\<rparr>,
         \<lparr>rel_table = ''dividends'', join_key = ''id:security_id''\<rparr>],
      sensitive_fields = [''id'']\<rparr>,
     \<lparr>table_name = ''portfolio_holdings'',
      description = ''Current portfolio holdings of users'',
      columns =
        [(''id'', col ''uuid'' ''Primary key'' None),
         (''account_id'', col ''uuid'' ''Reference to account'' None),
         (''security_id'', col ''uuid'' ''Reference to security'' None),
         (''quantity'', col ''numeric'' ''Number of shares held'' (Some ''SUM'')),
         (''average_cost'', col ''numeric'' ''Average cost basis per share'' (Some ''AVG'')),
         (''current_price'', col ''numeric'' ''Current price per share'' (Some ''AVG'')),
         (''market_value'', col ''numeric'' ''Total market value of holding'' (Some ''SUM,AVG'')),
         (''acquisition_date'', col ''date'' ''Date of initial purchase'' None),
         (''created_at'', col ''timestamp'' ''Record creation timestamp'' None),
         (''updated_at'', col ''timestamp'' ''Last update timestamp'' None)],
      relationships =
        [\<lparr>rel_table = ''accounts'', join_key = ''account_id:id''\<rparr>,
         \<lparr>rel_table = ''securities'', join_key = ''security_id:id''\<rparr>],
      sensitive_fields = [''id'', ''account_id'']\<rparr>,
     \<lparr>table_name = ''price_history'',
      description = ''Historical stock price data'',
      columns =
        [(''id'', col ''uuid'' ''Primary key'' None),
         (''security_id'', col ''uuid'' ''Reference to security'' None),
         (''history_date'', col ''date'' ''Date of price data'' None),
         (''open_price'', col ''numeric'' ''Opening price'' (Some ''AVG'')),
         (''close_price'', col ''numeric'' ''Closing price'' (Some ''AVG'')),
         (''high_price'', col ''numeric'' ''High price for the day'' (Some ''MAX'')),
         (''low_price'', col ''numeric'' ''Low price for the day'' (Some ''MIN'')),
         (''volume'', col ''bigint'' ''Trading volume'' (Some ''SUM,AVG'')),
         (''created_at'', col ''timestamp'' ''Record creation timestamp'' None)],
      relationships =
        [\<lparr>rel_table = ''securities'', join_key = ''security_id:id''\<rparr>],
      sensitive_fields = [''id'']\<rparr>,
     \<lparr>table_name = ''dividends'',
      description = ''Dividend payments from securities'',
      columns =
        [(''id'', col ''uuid'' ''Primary key'' None),
         (''security_id'', col ''uuid'' ''Reference to security'' None),
         (''account_id'', col ''uuid'' ''Reference to account'' None),
         (''ex_date'', col ''date'' ''Ex-dividend date'' None),
         (''record_date'', col ''date'' ''Record date for dividend eligibility'' None),
         (''payment_date'', col ''date'' ''Date dividend was paid'' None),
         (''amount_per_share'', col ''numeric'' ''Dividend amount per share'' (Some ''AVG'')),
         (''total_amount'', col ''numeric'' ''Total dividend amount received'' (Some ''SUM'')),
         (''created_at'', col ''timestamp'' ''Record creation timestamp'' None)],
      relationships =
        [\<lparr>rel_table = ''securities'', join_key = ''security_id:id''\<rparr>,
         \<lparr>rel_table = ''accounts'', join_key = ''account_id:id''\<rparr>],
      sensitive_fields = [''id'']\<rparr>,
     \<lparr>table_name = ''budgets'',
      description = ''User budgets for expense categories'',
      columns =
        [(''id'', col ''uuid'' ''Primary key'' None),
         (''user_id'', col ''uuid'' ''Reference to user'' None),
         (''category'', col ''text'' ''Budget category'' (Some ''false'')),
         (''limit_amount'', col ''numeric'' ''Budget limit amount'' (Some ''SUM'')),
         (''spent_amount'', col ''numeric'' ''Amount spent so far'' (Some ''SUM'')),
         (''budget_month'', col ''integer'' ''Budget month (1-12)'' (Some ''false'')),
         (''budget_year'', col ''integer'' ''Budget year'' (Some ''false'')),
         (''created_at'', col ''timestamp'' ''Record creation timestamp'' None),
         (''updated_at'', col ''timestamp'' ''Last update timestamp'' None)],
      relationships =
        [\<lparr>rel_table = ''users'', join_key = ''user_id:id''\<rparr>],
      sensitive_fields = [''id'', ''user_id'']\<rparr>,
     \<lparr>table_name = ''expense_categories'',
      description = ''Custom expense categories for users'',
      columns =
        [(''id'', col ''uuid'' ''Primary key'' None),
         (''user_id'', col ''uuid'' ''Reference to user'' None),
         (''category_name'', col ''text'' ''Category name'' (Some ''false'')),
         (''color'', col ''text'' ''Display color for category'' (Some ''false'')),
         (''icon'', col ''text'' ''Icon identifier'' (Some ''false'')),
         (''description'', col ''text'' ''Category description'' (Some ''false'')),
         (''created_at'', col ''timestamp'' ''Record creation timestamp'' None)],
      relationships =
        [\<lparr>rel_table = ''users'', join_key = ''user_id:id''\<rparr>],
      sensitive_fields = [''id'', ''user_id'']\<rparr>,
     \<lparr>table_name = ''financial_goals'',
      description = ''Financial goals and targets for users'',
      columns =
        [(''id'', col ''uuid'' ''Primary key'' None),
         (''user_id'', col ''uuid'' ''Reference to user'' None),
         (''goal_name'', col ''text'' ''Name of the financial goal'' (Some ''false'')),
         (''goal_type'', col ''text'' ''Type of goal (savings, investment, debt payoff)'' (Some ''false'')),
         (''target_amount'', col ''numeric'' ''Target amount to achieve'' (Some ''SUM'')),
         (''current_amount'', col ''numeric'' ''Current progress towards goal'' (Some ''SUM'')),
         (''target_date'', col ''date'' ''Target date to achieve goal'' None),
         (''priority'', col ''text'' ''Priority level (low, medium, high)'' (Some ''false'')),
         (''status'', col ''text'' ''Goal status (active, completed, paused)'' (Some ''false'')),
         (''created_at'', col ''timestamp'' ''Record creation timestamp'' None),
         (''updated_at'', col ''timestamp'' ''Last update timestamp'' None)],
      relationships =
        [\<lparr>rel_table = ''users'', join_key = ''user_id:id''\<rparr>],
      sensitive_fields = [''id'', ''user_id'']\<rparr>,
     \<lparr>table_name = ''schema_registry'',
      description = ''Registry of queryable schemas and metadata'',
      columns =
        [(''id'', col ''uuid'' ''Primary key'' None),
         (''table_name'', col ''text'' ''Table name'' (Some ''false'')),
         (''description'', col ''text'' ''Table description'' (Some ''false'')),
         (''col_defs'', col ''jsonb'' ''Column definitions as JSON'' (Some ''false'')),
         (''rel_defs'', col ''jsonb'' ''Relationship definitions as JSON'' (Some ''false'')),
         (''sens_fields'', col ''array'' ''Array of sensitive field names'' (Some ''false'')),
         (''is_queryable'', col ''boolean'' ''Whether table is queryable by agents'' (Some ''false'')),
         (''created_at'', col ''timestamp'' ''Record creation timestamp'' None),
         (''updated_at'', col ''timestamp'' ''Last update timestamp'' None)],
      relationships =
        [],
      sensitive_fields = [''id'']\<rparr>]"

definition loadSchemaRegistry :: FullSchema where
  "loadSchemaRegistry = fold (\<lambda>t cachedSchema. AList.update (table_name t) t cachedSchema) mockData []"

section \<open>The matcher only moves forward\<close>

definition forward :: "((mstate \<Rightarrow> mstate option) \<Rightarrow> mstate \<Rightarrow> mstate option) \<Rightarrow> bool" where
  "forward f = (\<forall>k s fin. f k s = Some fin \<longrightarrow>
                  (\<exists>s'. k s' = Some fin \<and> length (rest s') \<le> length (rest s)))"

definition consuming :: "((mstate \<Rightarrow> mstate option) \<Rightarrow> mstate \<Rightarrow> mstate option) \<Rightarrow> bool" where
  "consuming f = (\<forall>k s fin. f k s = Some fin \<longrightarrow>
                  (\<exists>s'. k s' = Some fin \<and> length (rest s') < length (rest s)))"

lemma forwardD:
  "forward f \<Longrightarrow> f k s = Some fin \<Longrightarrow> \<exists>s'. k s' = Some fin \<and> length (rest s') \<le> length (rest s)"
  unfolding forward_def by blast

lemma consumingD:
  "consuming f \<Longrightarrow> f k s = Some fin \<Longrightarrow> \<exists>s'. k s' = Some fin \<and> length (rest s') < length (rest s)"
  unfolding consuming_def by blast

lemma consuming_forward: "consuming f \<Longrightarrow> forward f"
  unfolding consuming_def forward_def by (meson less_imp_le_nat)

lemma rest_advance: "rest s = x # xs \<Longrightarrow> rest (advance s) = xs"
  by (simp add: advance_def)

lemma rstar_forward:
  assumes f: "forward f"
  shows "rstar n f k s = Some fin \<Longrightarrow> \<exists>s'. k s' = Some fin \<and> length (rest s') \<le> length (rest s)"
proof (induction n arbitrary: s)
  case 0
  then show ?case by auto
next
  case (Suc n)
  let ?k' = "\<lambda>s'. if length (rest s') < length (rest s) then rstar n f k s' else None"
  show ?case
  proof (cases "f ?k' s")
    case None
    then have "k s = Some fin" using Suc.prems by simp
    then show ?thesis by auto
  next
    case (Some r)
    then have "f ?k' s = Some fin" using Suc.prems by simp
    then obtain s1 where s1: "?k' s1 = Some fin" and l1: "length (rest s1) \<le> length (rest s)"
      using forwardD[OF f] by blast
    then have "rstar n f k s1 = Some fin" by (simp split: if_splits)
    then obtain s2 where "k s2 = Some fin" and "length (rest s2) \<le> length (rest s1)"
      using Suc.IH by blast
    then show ?thesis using l1 by (meson le_trans)
  qed
qed

lemma lazy_star_forward:
  assumes f: "forward f"
  shows "lazy_star n f k s = Some fin \<Longrightarrow> \<exists>s'. k s' = Some fin \<and> length (rest s') \<le> length (rest s)"
proof (induction n arbitrary: s)
  case 0
  then show ?case by auto
next
  case (Suc n)
  let ?k' = "\<lambda>s'. if length (rest s') < length (rest s) then lazy_star n f k s' else None"
  show ?case
  proof (cases "k s")
    case (Some r)
    then have "k s = Some fin" using Suc.prems by simp
    then show ?thesis by auto
  next
    case None
    then have "f ?k' s = Some fin" using Suc.prems by simp
    then obtain s1 where s1: "?k' s1 = Some fin" and l1: "length (rest s1) \<le> length (rest s)"
      using forwardD[OF f] by blast
    then have "lazy_star n f k s1 = Some fin" by (simp split: if_splits)
    then obtain s2 where "k s2 = Some fin" and "length (rest s2) \<le> length (rest s1)"
      using Suc.IH by blast
    then show ?thesis using l1 by (meson le_trans)
  qed
qed

lemma rmatch_forward: "forward (rmatch ic r)"
proof (induction r)
  case (Chr c)
  show ?case unfolding forward_def
    by (auto split: list.splits if_splits simp: advance_def intro!: exI)
next
  case (Class cl)
  show ?case unfolding forward_def
    by (auto split: list.splits if_splits simp: advance_def intro!: exI)
next
  case Eps
  show ?case unfolding forward_def by auto
next
  case (Seq a b)
  show ?case unfolding forward_def
  proof (intro allI impI)
    fix k s fin assume "rmatch ic (Seq a b) k s = Some fin"
    then have "rmatch ic a (rmatch ic b k) s = Some fin" by simp
    then obtain s1 where "rmatch ic b k s1 = Some fin" and "length (rest s1) \<le> length (rest s)"
      using forwardD[OF Seq.IH(1)] by blast
    moreover then obtain s2 where "k s2 = Some fin" and "length (rest s2) \<le> length (rest s1)"
      using forwardD[OF Seq.IH(2)] by blast
    ultimately show "\<exists>s'. k s' = Some fin \<and> length (rest s') \<le> length (rest s)"
      by (meson le_trans)
  qed
next
  case (Alt a b)
  show ?case unfolding forward_def
  proof (intro allI impI)
    fix k s fin assume h: "rmatch ic (Alt a b) k s = Some fin"
    then have "rmatch ic a k s = Some fin \<or> rmatch ic b k s = Some fin"
      by (simp split: option.splits)
    then show "\<exists>s'. k s' = Some fin \<and> length (rest s') \<le> length (rest s)"
      using forwardD[OF Alt.IH(1)] forwardD[OF Alt.IH(2)] by blast
  qed
next
  case (Star a)
  show ?case unfolding forward_def using rstar_forward[OF Star.IH] by simp
next
  case (Plus a)
  show ?case unfolding forward_def
  proof (intro allI impI)
    fix k s fin assume "rmatch ic (Plus a) k s = Some fin"
    then have "rmatch ic a (\<lambda>s'. rstar (length (rest s')) (rmatch ic a) k s') s = Some fin" by simp
    then obtain s1 where "rstar (length (rest s1)) (rmatch ic a) k s1 = Some fin"
      and l1: "length (rest s1) \<le> length (rest s)"
      using forwardD[OF Plus.IH] by blast
    then obtain s2 where "k s2 = Some fin" and "length (rest s2) \<le> length (rest s1)"
      using rstar_forward[OF Plus.IH] by blast
    then show "\<exists>s'. k s' = Some fin \<and> length (rest s') \<le> length (rest s)"
      using l1 by (meson le_trans)
  qed
next
  case (LazyPlus a)
  show ?case unfolding forward_def
  proof (intro allI impI)
    fix k s fin assume "rmatch ic (LazyPlus a) k s = Some fin"
    then have "rmatch ic a (\<lambda>s'. lazy_star (length (rest s')) (rmatch ic a) k s') s = Some fin" by simp
    then obtain s1 where "lazy_star (length (rest s1)) (rmatch ic a) k s1 = Some fin"
      and l1: "length (rest s1) \<le> length (rest s)"
      using forwardD[OF LazyPlus.IH] by blast
    then obtain s2 where "k s2 = Some fin" and "length (rest s2) \<le> length (rest s1)"
      using lazy_star_forward[OF LazyPlus.IH] by blast
    then show "\<exists>s'. k s' = Some fin \<and> length (rest s') \<le> length (rest s)"
      using l1 by (meson le_trans)
  qed
next
  case (Opt a)
  show ?case unfolding forward_def
  proof (intro allI impI)
    fix k s fin assume "rmatch ic (Opt a) k s = Some fin"
    then have "rstar (Suc 0) (rmatch ic a) k s = Some fin" by (simp del: rstar.simps)
    then show "\<exists>s'. k s' = Some fin \<and> length (rest s') \<le> length (rest s)"
      using rstar_forward[OF Opt.IH] by blast
  qed
next
  case (Group n a)
  show ?case unfolding forward_def
  proof (intro allI impI)
    fix k s fin assume "rmatch ic (Group n a) k s = Some fin"
    then have "rmatch ic a (\<lambda>s'. k (s'\<lparr>caps := AList.update n (consumed s s') (caps s')\<rparr>)) s = Some fin"
      by simp
    then obtain s1 where "k (s1\<lparr>caps := AList.update n (consumed s s1) (caps s1)\<rparr>) = Some fin"
      and "length (rest s1) \<le> length (rest s)"
      using forwardD[OF Group.IH] by blast
    then show "\<exists>s'. k s' = Some fin \<and> length (rest s') \<le> length (rest s)"
      by (intro exI[of _ "s1\<lparr>caps := AList.update n (consumed s s1) (caps s1)\<rparr>"]) simp
  qed
next
  case Eol
  show ?case unfolding forward_def by (auto split: if_splits)
next
  case WordB
  show ?case unfolding forward_def by (auto split: if_splits)
next
  case (NegLook a)
  show ?case unfolding forward_def by (auto split: option.splits)
qed

lemma consuming_Chr: "consuming (rmatch ic (Chr c))"
  unfolding consuming_def
  by (auto split: list.splits if_splits simp: advance_def intro!: exI)

lemma consuming_Class: "consuming (rmatch ic (Class cl))"
  unfolding consuming_def
  by (auto split: list.splits if_splits simp: advance_def intro!: exI)

lemma consuming_Seq1: "consuming (rmatch ic a) \<Longrightarrow> consuming (rmatch ic (Seq a b))"
  unfolding consuming_def
proof (intro allI impI)
  fix k s fin
  assume a: "\<forall>k s fin. rmatch ic a k s = Some fin \<longrightarrow> (\<exists>s'. k s' = Some fin \<and> length (rest s') < length (rest s))"
    and "rmatch ic (Seq a b) k s = Some fin"
  then have "rmatch ic a (rmatch ic b k) s = Some fin" by simp
  then obtain s1 where "rmatch ic b k s1 = Some fin" and "length (rest s1) < length (rest s)"
    using a by blast
  moreover then obtain s2 where "k s2 = Some fin" and "length (rest s2) \<le> length (rest s1)"
    using forwardD[OF rmatch_forward] by blast
  ultimately show "\<exists>s'. k s' = Some fin \<and> length (rest s') < length (rest s)"
    by (meson le_less_trans)
qed

lemma consuming_Seq2: "consuming (rmatch ic b) \<Longrightarrow> consuming (rmatch ic (Seq a b))"
  unfolding consuming_def
proof (intro allI impI)
  fix k s fin
  assume b: "\<forall>k s fin. rmatch ic b k s = Some fin \<longrightarrow> (\<exists>s'. k s' = Some fin \<and> length (rest s') < length (rest s))"
    and "rmatch ic (Seq a b) k s = Some fin"
  then have "rmatch ic a (rmatch ic b k) s = Some fin" by simp
  then obtain s1 where "rmatch ic b k s1 = Some fin" and "length (rest s1) \<le> length (rest s)"
    using forwardD[OF rmatch_forward] by blast
  moreover then obtain s2 where "k s2 = Some fin" and "length (rest s2) < length (rest s1)"
    using b by blast
  ultimately show "\<exists>s'. k s' = Some fin \<and> length (rest s') < length (rest s)"
    by (meson less_le_trans)
qed

lemma consuming_Group: "consuming (rmatch ic a) \<Longrightarrow> consuming (rmatch ic (Group n a))"
  unfolding consuming_def
proof (intro allI impI)
  fix k s fin
  assume a: "\<forall>k s fin. rmatch ic a k s = Some fin \<longrightarrow> (\<exists>s'. k s' = Some fin \<and> length (rest s') < length (rest s))"
    and "rmatch ic (Group n a) k s = Some fin"
  then have "rmatch ic a (\<lambda>s'. k (s'\<lparr>caps := AList.update n (consumed s s') (caps s')\<rparr>)) s = Some fin"
    by simp
  then obtain s1 where "k (s1\<lparr>caps := AList.update n (consumed s s1) (caps s1)\<rparr>) = Some fin"
    and "length (rest s1) < length (rest s)"
    using a by blast
  then show "\<exists>s'. k s' = Some fin \<and> length (rest s') < length (rest s)"
    by (intro exI[of _ "s1\<lparr>caps := AList.update n (consumed s s1) (caps s1)\<rparr>"]) simp
qed

lemma consuming_Plus: "consuming (rmatch ic a) \<Longrightarrow> consuming (rmatch ic (Plus a))"
  unfolding consuming_def
proof (intro allI impI)
  fix k s fin
  assume a: "\<forall>k s fin. rmatch ic a k s = Some fin \<longrightarrow> (\<exists>s'. k s' = Some fin \<and> length (rest s') < length (rest s))"
    and "rmatch ic (Plus a) k s = Some fin"
  then have "rmatch ic a (\<lambda>s'. rstar (length (rest s')) (rmatch ic a) k s') s = Some fin" by simp
  then obtain s1 where "rstar (length (rest s1)) (rmatch ic a) k s1 = Some fin"
    and l1: "length (rest s1) < length (rest s)"
    using a by blast
  then obtain s2 where "k s2 = Some fin" and "length (rest s2) \<le> length (rest s1)"
    using rstar_forward[OF rmatch_forward] by blast
  then show "\<exists>s'. k s' = Some fin \<and> length (rest s') < length (rest s)"
    using l1 by (meson le_less_trans)
qed

lemma consuming_lit: "w \<noteq> [] \<Longrightarrow> consuming (rmatch ic (lit w))"
  by (cases w) (simp_all add: consuming_Seq1 consuming_Chr del: rmatch.simps)

lemma regex_search_shorter:
  assumes c: "consuming (rmatch ic r)"
  shows "regex_search ic r prev str = Some fin \<Longrightarrow> length (rest fin) < length str"
proof (induction str arbitrary: prev)
  case Nil
  then have "rmatch ic r Some \<lparr>prev_char = prev, rest = [], caps = []\<rparr> = Some fin" by simp
  then show ?case using consumingD[OF c] by fastforce
next
  case (Cons x xs)
  show ?case
  proof (cases "rmatch ic r Some \<lparr>prev_char = prev, rest = x # xs, caps = []\<rparr>")
    case None
    then have "regex_search ic r (Some x) xs = Some fin" using Cons.prems by simp
    then show ?thesis using Cons.IH by fastforce
  next
    case (Some a)
    then have "rmatch ic r Some \<lparr>prev_char = prev, rest = x # xs, caps = []\<rparr> = Some fin"
      using Cons.prems by simp
    then show ?thesis using consumingD[OF c] by fastforce
  qed
qed

lemma exec_all_total:
  assumes c: "consuming (rmatch ic r)"
  shows "exec_all ic r prev str \<noteq> None"
  using c
proof (induction ic r prev str rule: exec_all.induct)
  case (1 ic r prev str)
  show ?case
  proof (cases "regex_search ic r prev str")
    case None
    then show ?thesis by (subst exec_all.simps) simp
  next
    case (Some fin)
    have l: "length (rest fin) < length str" using regex_search_shorter[OF "1.prems" Some] .
    have "exec_all ic r (prev_char fin) (rest fin) \<noteq> None" using "1.IH"[OF Some l "1.prems"] .
    then show ?thesis using Some l by (subst exec_all.simps) auto
  qed
qed

section \<open>The validator always returns\<close>

lemma consuming_word_plus: "consuming (rmatch ic word_plus)"
  unfolding word_plus_def by (rule consuming_Plus[OF consuming_Class])

lemma consuming_fromRegex: "consuming (rmatch ic fromRegex)"
  unfolding fromRegex_def by (rule consuming_Seq1[OF consuming_lit]) simp

lemma consuming_joinRegex: "consuming (rmatch ic joinRegex)"
  unfolding joinRegex_def by (rule consuming_Seq1[OF consuming_lit]) simp

lemma consuming_intoRegex: "consuming (rmatch ic intoRegex)"
  unfolding intoRegex_def by (rule consuming_Seq1[OF consuming_lit]) simp

lemma consuming_schemaRegex: "consuming (rmatch ic schemaRegex)"
  unfolding schemaRegex_def
  by (rule consuming_Seq2[OF consuming_Seq1[OF consuming_Group[OF consuming_word_plus]]])

lemma extractTableReferences_total: "\<exists>trs. extractTableReferences sql = Some trs"
  using exec_all_total[OF consuming_fromRegex[of True], where prev = None and str = sql]
    exec_all_total[OF consuming_joinRegex[of True], where prev = None and str = sql]
    exec_all_total[OF consuming_intoRegex[of True], where prev = None and str = sql]
  by (auto simp: extractTableReferences_def)

lemma detectHallucinations_total: "\<exists>sugg. detectHallucinations sql schema s0 = Some sugg"
  using exec_all_total[OF consuming_schemaRegex[of False], where prev = None and str = sql]
  by (auto simp: detectHallucinations_def Let_def)

definition select_errors :: "string \<Rightarrow> string list" where
  "select_errors sql =
     (if \<not> str_includes sql ''SELECT'' \<and> \<not> str_includes sql ''select''
      then [''Query must include a SELECT clause''] else [])"

definition table_loop :: "FullSchema \<Rightarrow> string \<Rightarrow> TableReference list \<Rightarrow> string list \<times> string list" where
  "table_loop schema sql trs =
     fold (validate_table schema sql (length trs)) trs
       (validateSafety sql [] @ (if trs = [] then [no_tables_message] else []), [])"

lemma validateQuery_result:
  "\<exists>trs sugg. extractTableReferences sql = Some trs
     \<and> validateQuery schema sql =
         Some \<lparr>valid = (fst (table_loop schema sql trs) @ select_errors sql = []),
               errors = fst (table_loop schema sql trs) @ select_errors sql,
               warnings = snd (table_loop schema sql trs),
               suggestions = sugg\<rparr>"
proof -
  obtain trs where t: "extractTableReferences sql = Some trs"
    using extractTableReferences_total by blast
  obtain sugg where s: "detectHallucinations sql schema [] = Some sugg"
    using detectHallucinations_total by blast
  show ?thesis
    using t s by (auto simp: validateQuery_def Let_def table_loop_def select_errors_def)
qed

section \<open>Errors and warnings are only ever appended\<close>

lemma validateColumnExists_keeps: "set errs \<subseteq> set (snd (validateColumnExists t c ts errs))"
  by (auto simp: validateColumnExists_def)

lemma validateAggregation_keeps:
  "set (fst ew) \<subseteq> set (fst (validateAggregation t c f ts ew))
   \<and> set (snd ew) \<subseteq> set (snd (validateAggregation t c f ts ew))"
  by (auto simp: validateAggregation_def Let_def split: option.splits)

lemma validate_column_keeps:
  "set (fst ew) \<subseteq> set (fst (validate_column schema n tr c ew))
   \<and> set (snd ew) \<subseteq> set (snd (validate_column schema n tr c ew))"
proof -
  have a: "set (fst ew) \<subseteq> set (fst (validateAggregation t col f ts (snd (validateColumnExists t col ts (fst ew)), snd ew)))"
    for t col f ts
    using validateAggregation_keeps[of "(snd (validateColumnExists t col ts (fst ew)), snd ew)" t col f ts]
      validateColumnExists_keeps[of "fst ew" t col ts] by auto
  have b: "set (snd ew) \<subseteq> set (snd (validateAggregation t col f ts (snd (validateColumnExists t col ts (fst ew)), snd ew)))"
    for t col f ts
    using validateAggregation_keeps[of "(snd (validateColumnExists t col ts (fst ew)), snd ew)" t col f ts]
    by auto
  show ?thesis
    using a b validateColumnExists_keeps[of "fst ew"]
    by (auto simp: validate_column_def Let_def split: option.splits)
qed

lemma fold_keeps:
  assumes "\<And>x ew. set (fst ew) \<subseteq> set (fst (f x ew)) \<and> set (snd ew) \<subseteq> set (snd (f x ew))"
  shows "set (fst ew) \<subseteq> set (fst (fold f xs ew)) \<and> set (snd ew) \<subseteq> set (snd (fold f xs ew))"
proof (induction xs arbitrary: ew)
  case Nil
  then show ?case by simp
next
  case (Cons x xs)
  show ?case using assms[of ew x] Cons.IH[of "f x ew"] by auto
qed

lemma validate_table_keeps:
  "set (fst ew) \<subseteq> set (fst (validate_table schema sql n tr ew))
   \<and> set (snd ew) \<subseteq> set (snd (validate_table schema sql n tr ew))"
proof -
  have loop: "set (fst ew0) \<subseteq> set (fst (fold (validate_column schema n tr) cs ew0))
      \<and> set (snd ew0) \<subseteq> set (snd (fold (validate_column schema n tr) cs ew0))" for ew0 cs
    by (rule fold_keeps) (rule validate_column_keeps)
  show ?thesis
    using loop[of "(fst ew, snd ew)"] loop[of "(fst ew @ [table_missing_message schema (tr_name tr)], snd ew)"]
    by (auto simp: validate_table_def validateTableExists_def Let_def split: option.splits prod.splits if_splits)
qed

lemma table_loop_keeps:
  "set (fst ew) \<subseteq> set (fst (fold (validate_table schema sql n) trs ew))
   \<and> set (snd ew) \<subseteq> set (snd (fold (validate_table schema sql n) trs ew))"
  by (rule fold_keeps) (rule validate_table_keeps)


lemma safety_errors_in_result:
  assumes "validateQuery schema sql = Some res"
  shows "set (validateSafety sql []) \<subseteq> set (errors res)" and "valid res = (errors res = [])"
proof -
  obtain trs sugg where r: "validateQuery schema sql =
         Some \<lparr>valid = (fst (table_loop schema sql trs) @ select_errors sql = []),
               errors = fst (table_loop schema sql trs) @ select_errors sql,
               warnings = snd (table_loop schema sql trs),
               suggestions = sugg\<rparr>"
    using validateQuery_result by blast
  have "set (validateSafety sql []) \<subseteq> set (fst (table_loop schema sql trs))"
    using table_loop_keeps[of "(validateSafety sql [] @ (if trs = [] then [no_tables_message] else []), [])"
        schema sql "length trs" trs]
    by (auto simp: table_loop_def)
  then show "set (validateSafety sql []) \<subseteq> set (errors res)" using r assms by auto
  show "valid res = (errors res = [])" using r assms by auto
qed

section \<open>Whole-word keyword occurrences\<close>








section \<open>What the table loop reports\<close>















section \<open>Warnings are aggregatability warnings only\<close>








section \<open>The three validation claims, for every registry and every SQL text\<close>




section \<open>Validation of concrete queries against the finance registry\<close>












lemma securities_columns:
  "map_option (\<lambda>ts. (column_lookup ts ''ticker'', column_lookup ts ''nope''))
     (schema_lookup loadSchemaRegistry ''securities'') =
   Some (Some (col ''text'' ''Security ticker symbol'' (Some ''false'')), None)"
  by code_simp

lemma validate_drop:
  "validateQuery loadSchemaRegistry ''select 1; drop table users'' =
     Some \<lparr>valid = False,
           errors = [''Dangerous operation detected: DROP. Only SELECT queries are allowed.'',
                     ''No tables found in query. Did you forget a FROM clause?''],
           warnings = [], suggestions = []\<rparr>"
  by code_simp

section \<open>Safety, existence and aggregation typing\<close>













end
